theory Spec2Isabelle
  imports Main "HOL-Library.Multiset"
begin

section \<open>Smart Library System: the Book routes over the Book collection\<close>

text \<open>
  The server keeps one collection of Book documents (models/Book.js) and serves five
  routes over it (routes/bookRoutes.js). The routes are modelled as functions from the
  request and the collection to the response and the new collection. The collection is
  the list of its documents in insertion order.

  What the routes call in Mongoose (find, findById, findOne, create, save,
  findByIdAndDelete) is not code of the repository; it is modelled here as far as the
  schema of models/Book.js switches it on: \<open>trim\<close>, \<open>required\<close>, \<open>unique\<close>, the
  \<open>Date\<close> type and \<open>timestamps\<close>. Three things come from outside and are inputs of the
  model: the current time of a request, the ObjectId that the driver generates for a new
  document, and the two casts of Mongoose from request text to an ObjectId and to a Date.
\<close>

subsection \<open>Values\<close>

type_synonym objectid = nat
type_synonym date = int

text \<open>
  A field of the JSON request body: absent, null or a string, which is what the client
  sends. JSON numbers, booleans, arrays and objects are left out. Strings are lists of code
  units below 256.
\<close>

datatype jsval = JUndefined | JNull | JString string

text \<open>The JavaScript test \<open>!v\<close>: undefined, null and the empty string are falsy.\<close>

fun falsy :: "jsval \<Rightarrow> bool" where
  "falsy JUndefined = True"
| "falsy JNull = True"
| "falsy (JString s) = (s = [])"

text \<open>
  \<open>String.prototype.trim\<close>, which the schema option \<open>trim: true\<close> installs as a setter:
  white space is TAB, LF, VT, FF, CR, SPACE and NBSP among the code units below 256.
\<close>

definition isSpace :: "char \<Rightarrow> bool" where
  "isSpace c = (of_char c \<in> {9, 10, 11, 12, 13, 32, 160 :: nat})"

definition trim :: "string \<Rightarrow> string" where
  "trim s = rev (dropWhile isSpace (rev (dropWhile isSpace s)))"

subsection \<open>The Book document (models/Book.js)\<close>

record book =
  oid :: objectid
  title :: string
  author :: string
  isbn :: string
  publicationDate :: date
  createdAt :: date
  updatedAt :: date

type_synonym collection = "book list"

text \<open>The body of a POST or PUT request: the four fields the routes destructure.\<close>

record body =
  body_title :: jsval
  body_author :: jsval
  body_isbn :: jsval
  body_publicationDate :: jsval

text \<open>
  What a call into Mongoose can throw: a CastError (an id that is no ObjectId), a
  ValidationError with the messages of its \<open>errors\<close>, or a server error with its code
  (11000 is the duplicate key error of a unique index).
\<close>

datatype store_error =
    CastError
  | ValidationError "string list"
  | MongoServerError nat

subsection \<open>Schema: setters and validators\<close>

text \<open>
  A String path with \<open>trim: true\<close>: a string is stored trimmed, null and undefined stay
  without a value.
\<close>

fun setString :: "jsval \<Rightarrow> string option" where
  "setString (JString s) = Some (trim s)"
| "setString _ = None"

text \<open>
  The Date path: null, undefined and the empty string give no value; any other string goes
  through the cast of Mongoose, which answers with the date or with the message of its
  CastError.
\<close>

fun setDate :: "(string \<Rightarrow> string + date) \<Rightarrow> jsval \<Rightarrow> string + date option" where
  "setDate castDate (JString s) =
     (if s = [] then Inr None
      else case castDate s of Inl m \<Rightarrow> Inl m | Inr d \<Rightarrow> Inr (Some d))"
| "setDate castDate _ = Inr None"

text \<open>\<open>required: [true, msg]\<close> on a String path: the value must be a non-empty string.\<close>

fun requiredString :: "string \<Rightarrow> string option \<Rightarrow> string list" where
  "requiredString msg None = [msg]"
| "requiredString msg (Some s) = (if s = [] then [msg] else [])"

text \<open>
  A failed cast of the Date path is recorded as the error of that path when the path is
  set, before the validators run.
\<close>

fun castErrors :: "string + date option \<Rightarrow> string list" where
  "castErrors (Inl m) = [m]"
| "castErrors (Inr d) = []"

text \<open>\<open>required\<close> on the Date path: a path that was cast must have a value.\<close>

fun requiredDate :: "string \<Rightarrow> string + date option \<Rightarrow> string list" where
  "requiredDate msg (Inl m) = []"
| "requiredDate msg (Inr None) = [msg]"
| "requiredDate msg (Inr (Some d)) = []"

text \<open>
  Validation of a document against bookSchema: the messages of its \<open>errors\<close>, the error
  recorded at the cast first, then those of the validators path by path.
\<close>

definition validate ::
  "string option \<Rightarrow> string option \<Rightarrow> string option \<Rightarrow> string + date option \<Rightarrow> string list" where
  "validate t a i d =
     castErrors d @
     requiredString ''Book title is required'' t @
     requiredString ''Author name is required'' a @
     requiredString ''ISBN number is required'' i @
     requiredDate ''Publication date is required'' d"

subsection \<open>Mongoose calls of the routes\<close>

text \<open>
  \<open>Book.find().sort({ createdAt: -1 })\<close>: all documents, newest first. Documents with
  the same createdAt stay in insertion order.
\<close>

definition find_sort_createdAt_desc :: "collection \<Rightarrow> book list" where
  "find_sort_createdAt_desc st = sort_key (\<lambda>b. - createdAt b) st"

text \<open>
  \<open>Book.findById(id)\<close>: the id is cast to an ObjectId first, and a failed cast throws.
\<close>

definition findById ::
  "(string \<Rightarrow> objectid option) \<Rightarrow> string \<Rightarrow> collection \<Rightarrow> store_error + book option" where
  "findById castObjectId i st =
     (case castObjectId i of
        None \<Rightarrow> Inl CastError
      | Some k \<Rightarrow> Inr (find (\<lambda>b. oid b = k) st))"

text \<open>
  \<open>Book.findOne({ isbn })\<close>: the filter value goes through the setters of the path, so a
  string is trimmed before it is compared. Every Book has an isbn, so a filter for null
  matches none.
\<close>

definition findOne_isbn :: "jsval \<Rightarrow> collection \<Rightarrow> book option" where
  "findOne_isbn v st =
     (case setString v of
        None \<Rightarrow> None
      | Some s \<Rightarrow> find (\<lambda>b. isbn b = s) st)"

text \<open>
  \<open>Book.create({ title, author, isbn, publicationDate })\<close>: set the paths, validate,
  stamp createdAt and updatedAt with the current time, insert under the generated id.
  The insert fails with code 11000 when the unique index on \<open>_id\<close> or on \<open>isbn\<close> already
  holds the key.
\<close>

definition Book_create ::
  "(string \<Rightarrow> string + date) \<Rightarrow> date \<Rightarrow> objectid \<Rightarrow> jsval \<Rightarrow> jsval \<Rightarrow> jsval \<Rightarrow> jsval \<Rightarrow>
   collection \<Rightarrow> store_error + (book \<times> collection)" where
  "Book_create castDate now newId t a i d st =
     (let t' = setString t; a' = setString a; i' = setString i; d' = setDate castDate d;
          errors = validate t' a' i' d'
      in case (t', a', i', d') of
           (Some tv, Some av, Some iv, Inr (Some dv)) \<Rightarrow>
             (if errors \<noteq> [] then Inl (ValidationError errors)
              else if \<exists>c \<in> set st. oid c = newId \<or> isbn c = iv
              then Inl (MongoServerError 11000)
              else let doc = \<lparr>oid = newId, title = tv, author = av, isbn = iv,
                              publicationDate = dv, createdAt = now, updatedAt = now\<rparr>
                   in Inr (doc, st @ [doc]))
         | _ \<Rightarrow> Inl (ValidationError errors))"

text \<open>The one document with the given id, removed or replaced.\<close>

fun deleteOne :: "objectid \<Rightarrow> collection \<Rightarrow> collection" where
  "deleteOne k [] = []"
| "deleteOne k (c # cs) = (if oid c = k then cs else c # deleteOne k cs)"

fun replaceOne :: "objectid \<Rightarrow> book \<Rightarrow> collection \<Rightarrow> collection" where
  "replaceOne k doc [] = []"
| "replaceOne k doc (c # cs) = (if oid c = k then doc # cs else c # replaceOne k doc cs)"

text \<open>\<open>Book.findByIdAndDelete(id)\<close>.\<close>

definition findByIdAndDelete ::
  "(string \<Rightarrow> objectid option) \<Rightarrow> string \<Rightarrow> collection \<Rightarrow> store_error + collection" where
  "findByIdAndDelete castObjectId i st =
     (case castObjectId i of
        None \<Rightarrow> Inl CastError
      | Some k \<Rightarrow> Inr (deleteOne k st))"

text \<open>
  The four assignments of the PUT route followed by \<open>book.save()\<close>. The assignments run
  the setters; save validates the document and reports a failed cast or a missing
  value as a ValidationError. A document that the assignments left as it was is not
  written and keeps its updatedAt; a changed one gets the current time as updatedAt and is
  written, and the write fails with code 11000 when it changes the isbn to one the unique
  index already holds.
\<close>

definition assign_and_save ::
  "(string \<Rightarrow> string + date) \<Rightarrow> date \<Rightarrow> book \<Rightarrow> jsval \<Rightarrow> jsval \<Rightarrow> jsval \<Rightarrow> jsval \<Rightarrow>
   collection \<Rightarrow> store_error + (book \<times> collection)" where
  "assign_and_save castDate now doc t a i d st =
     (let t' = setString t; a' = setString a; i' = setString i; d' = setDate castDate d;
          errors = validate t' a' i' d'
      in case (t', a', i', d') of
           (Some tv, Some av, Some iv, Inr (Some dv)) \<Rightarrow>
             (if errors \<noteq> [] then Inl (ValidationError errors)
              else let doc' = doc\<lparr>title := tv, author := av, isbn := iv, publicationDate := dv\<rparr>
                   in if doc' = doc then Inr (doc, st)
                      else if iv \<noteq> isbn doc \<and> (\<exists>c \<in> set st. isbn c = iv)
                      then Inl (MongoServerError 11000)
                      else let doc'' = doc'\<lparr>updatedAt := now\<rparr>
                           in Inr (doc'', replaceOne (oid doc) doc'' st))
         | _ \<Rightarrow> Inl (ValidationError errors))"

subsection \<open>The response envelope\<close>

datatype payload = NoData | Doc book | Docs "book list"

record response =
  status :: nat
  success :: bool
  message :: "string option"
  count :: "nat option"
  data :: payload

text \<open>\<open>res.status(c).json({ success: false, message: m })\<close>.\<close>

definition failure :: "nat \<Rightarrow> string \<Rightarrow> response" where
  "failure c m = \<lparr>status = c, success = False, message = Some m, count = None, data = NoData\<rparr>"

text \<open>\<open>messages.join(', ')\<close>.\<close>

fun join :: "string \<Rightarrow> string list \<Rightarrow> string" where
  "join sep [] = []"
| "join sep [m] = m"
| "join sep (m # ms) = m @ sep @ join sep ms"

subsection \<open>The routes (routes/bookRoutes.js)\<close>

text \<open>
  Each route returns its response and the collection it leaves. The catch blocks are
  reached by what Mongoose throws; a database that does not answer is not modelled.
\<close>

text \<open>GET /api/books\<close>

definition router_get_all :: "collection \<Rightarrow> response \<times> collection" where
  "router_get_all st =
     (let books = find_sort_createdAt_desc st
      in (\<lparr>status = 200, success = True, message = None,
           count = Some (length books), data = Docs books\<rparr>, st))"

text \<open>GET /api/books/:id\<close>

definition router_get_id ::
  "(string \<Rightarrow> objectid option) \<Rightarrow> string \<Rightarrow> collection \<Rightarrow> response \<times> collection" where
  "router_get_id castObjectId i st =
     (case findById castObjectId i st of
        Inl error \<Rightarrow> (failure 500 ''Failed to retrieve book. Please try again later.'', st)
      | Inr None \<Rightarrow> (failure 404 ''Book not found'', st)
      | Inr (Some book) \<Rightarrow>
          (\<lparr>status = 200, success = True, message = None, count = None, data = Doc book\<rparr>, st))"

text \<open>POST /api/books\<close>

definition router_post ::
  "(string \<Rightarrow> string + date) \<Rightarrow> date \<Rightarrow> objectid \<Rightarrow> body \<Rightarrow> collection \<Rightarrow>
   response \<times> collection" where
  "router_post castDate now newId b st =
     (if falsy (body_title b) \<or> falsy (body_author b) \<or> falsy (body_isbn b) \<or>
         falsy (body_publicationDate b)
      then (failure 400
        ''Please provide all required fields: title, author, ISBN, and publication date'', st)
      else case findOne_isbn (body_isbn b) st of
        Some existingBook \<Rightarrow> (failure 400 ''A book with this ISBN already exists'', st)
      | None \<Rightarrow>
         (case Book_create castDate now newId (body_title b) (body_author b) (body_isbn b)
                 (body_publicationDate b) st of
            Inr (book, st') \<Rightarrow>
              (\<lparr>status = 201, success = True, message = Some ''Book added successfully'',
                count = None, data = Doc book\<rparr>, st')
          | Inl (ValidationError messages) \<Rightarrow> (failure 400 (join '', '' messages), st)
          | Inl (MongoServerError code) \<Rightarrow>
              (if code = 11000 then (failure 400 ''A book with this ISBN already exists'', st)
               else (failure 500 ''Failed to add book. Please try again later.'', st))
          | Inl CastError \<Rightarrow> (failure 500 ''Failed to add book. Please try again later.'', st)))"

text \<open>DELETE /api/books/:id\<close>

definition router_delete ::
  "(string \<Rightarrow> objectid option) \<Rightarrow> string \<Rightarrow> collection \<Rightarrow> response \<times> collection" where
  "router_delete castObjectId i st =
     (case findById castObjectId i st of
        Inl error \<Rightarrow> (failure 500 ''Failed to delete book. Please try again later.'', st)
      | Inr None \<Rightarrow> (failure 404 ''Book not found'', st)
      | Inr (Some book) \<Rightarrow>
         (case findByIdAndDelete castObjectId i st of
            Inl error \<Rightarrow> (failure 500 ''Failed to delete book. Please try again later.'', st)
          | Inr st' \<Rightarrow>
              (\<lparr>status = 200, success = True, message = Some ''Book deleted successfully'',
                count = None, data = NoData\<rparr>, st')))"

text \<open>PUT /api/books/:id\<close>

definition router_put ::
  "(string \<Rightarrow> objectid option) \<Rightarrow> (string \<Rightarrow> string + date) \<Rightarrow> date \<Rightarrow> string \<Rightarrow> body \<Rightarrow>
   collection \<Rightarrow> response \<times> collection" where
  "router_put castObjectId castDate now i b st =
     (if falsy (body_title b) \<or> falsy (body_author b) \<or> falsy (body_isbn b) \<or>
         falsy (body_publicationDate b)
      then (failure 400
        ''Please provide all required fields: title, author, ISBN, and publication date'', st)
      else case findById castObjectId i st of
        Inl error \<Rightarrow> (failure 500 ''Failed to update book. Please try again later.'', st)
      | Inr None \<Rightarrow> (failure 404 ''Book not found'', st)
      | Inr (Some book) \<Rightarrow>
         (if body_isbn b \<noteq> JString (isbn book) \<and> findOne_isbn (body_isbn b) st \<noteq> None
          then (failure 400 ''A book with this ISBN already exists'', st)
          else case assign_and_save castDate now book (body_title b) (body_author b)
                      (body_isbn b) (body_publicationDate b) st of
            Inl error \<Rightarrow> (failure 500 ''Failed to update book. Please try again later.'', st)
          | Inr (book', st') \<Rightarrow>
              (\<lparr>status = 200, success = True, message = Some ''Book updated successfully'',
                count = None, data = Doc book'\<rparr>, st')))"

subsection \<open>Requests and reachable collections\<close>

text \<open>
  A request with what the outside supplies to it: the time of the request and, for a
  POST, the id the driver generates.
\<close>

datatype request =
    GetAll
  | GetId string
  | Post date objectid body
  | Delete string
  | Put date string body

fun handle ::
  "(string \<Rightarrow> objectid option) \<Rightarrow> (string \<Rightarrow> string + date) \<Rightarrow> request \<Rightarrow> collection \<Rightarrow>
   response \<times> collection" where
  "handle castObjectId castDate GetAll st = router_get_all st"
| "handle castObjectId castDate (GetId i) st = router_get_id castObjectId i st"
| "handle castObjectId castDate (Post now newId b) st = router_post castDate now newId b st"
| "handle castObjectId castDate (Delete i) st = router_delete castObjectId i st"
| "handle castObjectId castDate (Put now i b) st = router_put castObjectId castDate now i b st"

text \<open>The collection after a sequence of requests, starting from the empty one.\<close>

fun run ::
  "(string \<Rightarrow> objectid option) \<Rightarrow> (string \<Rightarrow> string + date) \<Rightarrow> request list \<Rightarrow> collection \<Rightarrow>
   collection" where
  "run castObjectId castDate [] st = st"
| "run castObjectId castDate (r # rs) st =
     run castObjectId castDate rs (snd (handle castObjectId castDate r st))"

subsection \<open>Well-formed collections\<close>

text \<open>
  A stored Book satisfies the schema: title, author and isbn are trimmed and not empty.
  A well-formed collection holds such Books only, under distinct ids and distinct isbns.
\<close>

definition stored_ok :: "book \<Rightarrow> bool" where
  "stored_ok b =
     (title b \<noteq> [] \<and> trim (title b) = title b \<and>
      author b \<noteq> [] \<and> trim (author b) = author b \<and>
      isbn b \<noteq> [] \<and> trim (isbn b) = isbn b)"

definition store_ok :: "collection \<Rightarrow> bool" where
  "store_ok st = (distinct (map oid st) \<and> distinct (map isbn st) \<and> list_all stored_ok st)"

subsection \<open>Sample casts\<close>

text \<open>
  Two concrete casts, to run the routes on concrete requests: the ObjectId of a string of
  24 hexadecimal digits, and a Date cast that knows two ISO dates (in milliseconds since
  the epoch) and rejects every other string.
\<close>

definition hexDigit :: "char \<Rightarrow> nat option" where
  "hexDigit c =
     (let n = (of_char c :: nat)
      in if 48 \<le> n \<and> n \<le> 57 then Some (n - 48)
         else if 97 \<le> n \<and> n \<le> 102 then Some (n - 87)
         else if 65 \<le> n \<and> n \<le> 70 then Some (n - 55)
         else None)"

definition castObjectId_hex24 :: "string \<Rightarrow> objectid option" where
  "castObjectId_hex24 s =
     (if length s = 24 \<and> list_all (\<lambda>c. hexDigit c \<noteq> None) s
      then Some (foldl (\<lambda>n c. 16 * n + the (hexDigit c)) 0 s)
      else None)"

definition castDate_sample :: "string \<Rightarrow> string + date" where
  "castDate_sample s =
     (if s = ''1965-08-01'' then Inr (- 139449600000)
      else if s = ''1984-07-01'' then Inr 457488000000
      else Inl (''Cast to date failed for value '' @ [CHR 0x22] @ s @ [CHR 0x22] @
                '' (type string) at path '' @ [CHR 0x22] @ ''publicationDate'' @ [CHR 0x22]))"

section \<open>Facts about the store operations\<close>

lemma trim_idem: "trim (trim s) = trim s"
proof -
  define u where "u = dropWhile isSpace s"
  define w where "w = dropWhile isSpace (rev u)"
  have w_idem: "dropWhile isSpace w = w"
    unfolding w_def by (rule dropWhile_idem)
  have "dropWhile isSpace (rev w) = rev w"
  proof (cases "w = []")
    case True
    then show ?thesis by simp
  next
    case False
    have "rev u = takeWhile isSpace (rev u) @ w"
      unfolding w_def by simp
    then have "last (rev u) = last w"
      using False by (metis last_appendR)
    moreover have ne: "u \<noteq> []"
      using False w_def by auto
    ultimately have "last w = hd u"
      by (simp add: last_rev)
    moreover have "\<not> isSpace (hd u)"
      using ne unfolding u_def by (rule hd_dropWhile)
    ultimately have "\<not> isSpace (hd (rev w))"
      using False by (simp add: hd_rev)
    then show ?thesis
      using False by (cases "rev w") auto
  qed
  then show ?thesis
    by (simp add: trim_def u_def [symmetric] w_def [symmetric] w_idem)
qed

lemma trim_Nil: "trim [] = []"
  by (simp add: trim_def)

lemma find_oid_distinct:
  "distinct (map oid st) \<Longrightarrow> bk \<in> set st \<Longrightarrow> find (\<lambda>b. oid b = oid bk) st = Some bk"
  by (induction st) auto

lemma find_None_iff_set: "find P xs = None \<longleftrightarrow> (\<forall>x \<in> set xs. \<not> P x)"
  by (induction xs) auto

lemma find_Some_set: "find P xs = Some x \<Longrightarrow> x \<in> set xs \<and> P x"
  by (induction xs) (auto split: if_splits)

lemma validate_ok:
  "tv \<noteq> [] \<Longrightarrow> av \<noteq> [] \<Longrightarrow> iv \<noteq> [] \<Longrightarrow>
   validate (Some tv) (Some av) (Some iv) (Inr (Some dv)) = []"
  by (simp add: validate_def)

lemma validate_Nil_iff:
  "validate (Some tv) (Some av) (Some iv) (Inr (Some dv)) = [] \<longleftrightarrow> tv \<noteq> [] \<and> av \<noteq> [] \<and> iv \<noteq> []"
  by (simp add: validate_def)

lemma Book_create_ok:
  assumes "trim t \<noteq> []" "trim a \<noteq> []" "trim i \<noteq> []" "d \<noteq> []" "castDate d = Inr dv"
    and "\<forall>c \<in> set st. oid c \<noteq> newId \<and> isbn c \<noteq> trim i"
  shows "Book_create castDate now newId (JString t) (JString a) (JString i) (JString d) st =
     Inr (\<lparr>oid = newId, title = trim t, author = trim a, isbn = trim i,
           publicationDate = dv, createdAt = now, updatedAt = now\<rparr>,
          st @ [\<lparr>oid = newId, title = trim t, author = trim a, isbn = trim i,
           publicationDate = dv, createdAt = now, updatedAt = now\<rparr>])"
  using assms by (auto simp: Book_create_def validate_ok Let_def)

lemma router_post_created:
  assumes "body_title b = JString t" "body_author b = JString a" "body_isbn b = JString i"
    "body_publicationDate b = JString d"
    and "trim t \<noteq> []" "trim a \<noteq> []" "trim i \<noteq> []" "d \<noteq> []" "castDate d = Inr dv"
    and "trim i \<notin> isbn ` set st" "newId \<notin> oid ` set st"
  shows "router_post castDate now newId b st =
     (\<lparr>status = 201, success = True, message = Some ''Book added successfully'', count = None,
       data = Doc \<lparr>oid = newId, title = trim t, author = trim a, isbn = trim i,
           publicationDate = dv, createdAt = now, updatedAt = now\<rparr>\<rparr>,
      st @ [\<lparr>oid = newId, title = trim t, author = trim a, isbn = trim i,
           publicationDate = dv, createdAt = now, updatedAt = now\<rparr>])"
proof -
  have ne: "t \<noteq> []" "a \<noteq> []" "i \<noteq> []"
    using assms(5-7) by (auto simp: trim_Nil)
  have none: "findOne_isbn (JString i) st = None"
    using assms(10) by (force simp: findOne_isbn_def find_None_iff_set)
  have fresh: "\<forall>c \<in> set st. oid c \<noteq> newId \<and> isbn c \<noteq> trim i"
    using assms(10,11) by force
  show ?thesis
    unfolding router_post_def
    using Book_create_ok [where castDate = castDate and d = d and dv = dv and t = t and a = a
        and i = i and st = st and newId = newId and now = now, OF assms(5-9) fresh]
    by (simp add: assms(1-4) ne assms(8) none)
qed


lemma set_deleteOne: "set (deleteOne k st) \<subseteq> set st"
  by (induction st) auto

lemma distinct_map_deleteOne: "distinct (map f st) \<Longrightarrow> distinct (map f (deleteOne k st))"
proof (induction st)
  case Nil
  then show ?case by simp
next
  case (Cons c cs)
  then show ?case using set_deleteOne [of k cs] by auto
qed

lemma oid_deleteOne:
  "distinct (map oid st) \<Longrightarrow> k \<notin> oid ` set (deleteOne k st)"
  by (induction st) auto

lemma set_deleteOne_distinct:
  "distinct (map oid st) \<Longrightarrow> set (deleteOne k st) = {c \<in> set st. oid c \<noteq> k}"
  by (induction st) (auto simp: image_iff)

lemma map_oid_replaceOne: "oid doc = k \<Longrightarrow> map oid (replaceOne k doc st) = map oid st"
  by (induction st) auto

lemma replaceOne_self:
  "find (\<lambda>b. oid b = k) st = Some doc \<Longrightarrow> replaceOne k doc st = st"
  by (induction st) (auto split: if_splits)

lemma set_replaceOne:
  "set (replaceOne k doc st) \<subseteq> insert doc (set st)"
  by (induction st) auto

lemma replaceOne_mem:
  "find (\<lambda>b. oid b = k) st = Some old \<Longrightarrow> doc \<in> set (replaceOne k doc st)"
  by (induction st) (auto split: if_splits)

lemma map_isbn_replaceOne_same:
  "find (\<lambda>b. oid b = k) st = Some old \<Longrightarrow> isbn doc = isbn old \<Longrightarrow>
   map isbn (replaceOne k doc st) = map isbn st"
  by (induction st) (auto split: if_splits)

lemma distinct_isbn_replaceOne_fresh:
  "distinct (map isbn st) \<Longrightarrow> isbn doc \<notin> isbn ` set st \<Longrightarrow>
   distinct (map isbn (replaceOne k doc st))"
proof (induction st)
  case Nil
  then show ?case by simp
next
  case (Cons c cs)
  then show ?case using set_replaceOne [of k doc cs] by auto
qed

section \<open>What the routes can answer\<close>

lemma setString_Some: "setString v = Some s \<longleftrightarrow> (\<exists>x. v = JString x \<and> s = trim x)"
  by (cases v) auto

lemma setDate_Some:
  "setDate castDate v = Inr (Some dv) \<longleftrightarrow> (\<exists>x. v = JString x \<and> x \<noteq> [] \<and> castDate x = Inr dv)"
  by (cases v) (auto split: sum.splits)

lemma Book_create_Inr:
  assumes "Book_create castDate now newId t a i d st = Inr (doc, st')"
  shows "\<exists>tx ax ix dx dv.
           t = JString tx \<and> a = JString ax \<and> i = JString ix \<and> d = JString dx \<and>
           trim tx \<noteq> [] \<and> trim ax \<noteq> [] \<and> trim ix \<noteq> [] \<and> dx \<noteq> [] \<and> castDate dx = Inr dv \<and>
           (\<forall>c \<in> set st. oid c \<noteq> newId \<and> isbn c \<noteq> trim ix) \<and>
           doc = \<lparr>oid = newId, title = trim tx, author = trim ax, isbn = trim ix,
                   publicationDate = dv, createdAt = now, updatedAt = now\<rparr> \<and>
           st' = st @ [doc]"
proof -
  from assms obtain tv av iv dv where s:
    "setString t = Some tv" "setString a = Some av" "setString i = Some iv"
    "setDate castDate d = Inr (Some dv)"
    by (auto simp: Book_create_def Let_def split: option.splits sum.splits)
  from assms s have v: "validate (Some tv) (Some av) (Some iv) (Inr (Some dv)) = []"
    by (auto simp: Book_create_def Let_def split: if_splits)
  from assms s v have u: "\<forall>c \<in> set st. oid c \<noteq> newId \<and> isbn c \<noteq> iv"
    and r: "doc = \<lparr>oid = newId, title = tv, author = av, isbn = iv,
                   publicationDate = dv, createdAt = now, updatedAt = now\<rparr>" "st' = st @ [doc]"
    by (auto simp: Book_create_def Let_def split: if_splits)
  from v have ne: "tv \<noteq> []" "av \<noteq> []" "iv \<noteq> []"
    by (simp_all add: validate_Nil_iff)
  from s obtain tx ax ix dx where
    "t = JString tx" "tv = trim tx" "a = JString ax" "av = trim ax"
    "i = JString ix" "iv = trim ix" "d = JString dx" "dx \<noteq> []" "castDate dx = Inr dv"
    by (auto simp: setString_Some setDate_Some)
  with ne u r show ?thesis by blast
qed

lemma router_post_cases:
  assumes "router_post castDate now newId b st = (r, st')"
  shows "(st' = st \<and> \<not> success r \<and> status r = 400) \<or>
         (\<exists>t a i d dv.
            body_title b = JString t \<and> body_author b = JString a \<and> body_isbn b = JString i \<and>
            body_publicationDate b = JString d \<and>
            trim t \<noteq> [] \<and> trim a \<noteq> [] \<and> trim i \<noteq> [] \<and> d \<noteq> [] \<and> castDate d = Inr dv \<and>
            trim i \<notin> isbn ` set st \<and> newId \<notin> oid ` set st \<and>
            r = \<lparr>status = 201, success = True, message = Some ''Book added successfully'',
                  count = None,
                  data = Doc \<lparr>oid = newId, title = trim t, author = trim a, isbn = trim i,
                     publicationDate = dv, createdAt = now, updatedAt = now\<rparr>\<rparr> \<and>
            st' = st @ [\<lparr>oid = newId, title = trim t, author = trim a, isbn = trim i,
                     publicationDate = dv, createdAt = now, updatedAt = now\<rparr>])"
proof (cases "Book_create castDate now newId (body_title b) (body_author b) (body_isbn b)
                 (body_publicationDate b) st")
  case (Inl e)
  have "MongoServerError c = e \<Longrightarrow> c = 11000" for c
    using Inl by (auto simp: Book_create_def Let_def split: option.splits sum.splits if_splits)
  moreover have "e \<noteq> CastError"
    using Inl by (auto simp: Book_create_def Let_def split: option.splits sum.splits if_splits)
  ultimately show ?thesis
    using assms Inl
    by (cases e) (auto simp: router_post_def failure_def split: if_splits option.splits)
next
  case (Inr p)
  obtain doc st2 where p: "p = (doc, st2)" by (cases p)
  from Book_create_Inr [OF Inr [unfolded p]] obtain tx ax ix dx dv where x:
    "body_title b = JString tx" "body_author b = JString ax" "body_isbn b = JString ix"
    "body_publicationDate b = JString dx"
    "trim tx \<noteq> []" "trim ax \<noteq> []" "trim ix \<noteq> []" "dx \<noteq> []" "castDate dx = Inr dv"
    "\<forall>c \<in> set st. oid c \<noteq> newId \<and> isbn c \<noteq> trim ix"
    "doc = \<lparr>oid = newId, title = trim tx, author = trim ax, isbn = trim ix,
                   publicationDate = dv, createdAt = now, updatedAt = now\<rparr>"
    "st2 = st @ [doc]"
    by blast
  have fresh: "trim ix \<notin> isbn ` set st" "newId \<notin> oid ` set st"
    using x(10) by auto
  have "router_post castDate now newId b st =
     (\<lparr>status = 201, success = True, message = Some ''Book added successfully'', count = None,
       data = Doc \<lparr>oid = newId, title = trim tx, author = trim ax, isbn = trim ix,
           publicationDate = dv, createdAt = now, updatedAt = now\<rparr>\<rparr>,
      st @ [\<lparr>oid = newId, title = trim tx, author = trim ax, isbn = trim ix,
           publicationDate = dv, createdAt = now, updatedAt = now\<rparr>])"
    using x(1-9) fresh by (rule router_post_created)
  with assms x fresh show ?thesis by auto
qed

lemma assign_and_save_Inr:
  assumes "assign_and_save castDate now doc t a i d st = Inr (doc', st')"
  shows "\<exists>tx ax ix dx dv.
           t = JString tx \<and> a = JString ax \<and> i = JString ix \<and> d = JString dx \<and>
           trim tx \<noteq> [] \<and> trim ax \<noteq> [] \<and> trim ix \<noteq> [] \<and> dx \<noteq> [] \<and> castDate dx = Inr dv \<and>
           (trim ix = isbn doc \<or> trim ix \<notin> isbn ` set st) \<and>
           doc' = doc\<lparr>title := trim tx, author := trim ax, isbn := trim ix,
                      publicationDate := dv,
                      updatedAt := (if doc\<lparr>title := trim tx, author := trim ax, isbn := trim ix,
                                           publicationDate := dv\<rparr> = doc
                                    then updatedAt doc else now)\<rparr> \<and>
           st' = (if doc\<lparr>title := trim tx, author := trim ax, isbn := trim ix,
                          publicationDate := dv\<rparr> = doc
                  then st else replaceOne (oid doc) doc' st)"
proof -
  from assms obtain tv av iv dv where s:
    "setString t = Some tv" "setString a = Some av" "setString i = Some iv"
    "setDate castDate d = Inr (Some dv)"
    by (auto simp: assign_and_save_def Let_def split: option.splits sum.splits)
  from assms s have v: "validate (Some tv) (Some av) (Some iv) (Inr (Some dv)) = []"
    by (auto simp: assign_and_save_def Let_def split: if_splits)
  from s obtain tx ax ix dx where x:
    "t = JString tx" "tv = trim tx" "a = JString ax" "av = trim ax"
    "i = JString ix" "iv = trim ix" "d = JString dx" "dx \<noteq> []" "castDate dx = Inr dv"
    by (auto simp: setString_Some setDate_Some)
  from v have ne: "tv \<noteq> []" "av \<noteq> []" "iv \<noteq> []"
    by (simp_all add: validate_Nil_iff)
  show ?thesis
  proof (cases "doc\<lparr>title := tv, author := av, isbn := iv, publicationDate := dv\<rparr> = doc")
    case True
    then have "isbn doc = iv"
      by (metis book.select_convs(4) book.surjective book.update_convs(2,3,4,5))
    with assms s v True x ne show ?thesis
      by (simp add: assign_and_save_def Let_def)
  next
    case False
    with assms s v x ne show ?thesis
      by (auto simp: assign_and_save_def Let_def split: if_splits)
  qed
qed

lemma assign_and_save_ok:
  assumes "trim t \<noteq> []" "trim a \<noteq> []" "trim i \<noteq> []" "d \<noteq> []" "castDate d = Inr dv"
    and "trim i = isbn doc \<or> trim i \<notin> isbn ` set st"
  shows "assign_and_save castDate now doc (JString t) (JString a) (JString i) (JString d) st =
     (if doc\<lparr>title := trim t, author := trim a, isbn := trim i, publicationDate := dv\<rparr> = doc
      then Inr (doc, st)
      else Inr (doc\<lparr>title := trim t, author := trim a, isbn := trim i, publicationDate := dv,
                    updatedAt := now\<rparr>,
                replaceOne (oid doc)
                  (doc\<lparr>title := trim t, author := trim a, isbn := trim i, publicationDate := dv,
                    updatedAt := now\<rparr>) st))"
  using assms by (auto simp: assign_and_save_def validate_ok Let_def image_iff)

lemma findById_Some:
  "findById castObjectId i st = Inr (Some bk) \<longleftrightarrow>
     (\<exists>k. castObjectId i = Some k \<and> find (\<lambda>b. oid b = k) st = Some bk)"
  by (auto simp: findById_def split: option.splits)

lemma router_put_updated:
  assumes "castObjectId i = Some k" "find (\<lambda>b. oid b = k) st = Some bk"
    and "body_title b = JString t" "body_author b = JString a" "body_isbn b = JString ii"
    "body_publicationDate b = JString d"
    and "trim t \<noteq> []" "trim a \<noteq> []" "trim ii \<noteq> []" "d \<noteq> []" "castDate d = Inr dv"
    and "(ii = isbn bk \<and> trim ii = isbn bk) \<or> trim ii \<notin> isbn ` set st"
  shows "router_put castObjectId castDate now i b st =
     (if bk\<lparr>title := trim t, author := trim a, isbn := trim ii, publicationDate := dv\<rparr> = bk
      then (\<lparr>status = 200, success = True, message = Some ''Book updated successfully'',
              count = None, data = Doc bk\<rparr>, st)
      else (\<lparr>status = 200, success = True, message = Some ''Book updated successfully'',
              count = None,
              data = Doc (bk\<lparr>title := trim t, author := trim a, isbn := trim ii,
                             publicationDate := dv, updatedAt := now\<rparr>)\<rparr>,
            replaceOne k (bk\<lparr>title := trim t, author := trim a, isbn := trim ii,
                             publicationDate := dv, updatedAt := now\<rparr>) st))"
proof -
  have ne: "t \<noteq> []" "a \<noteq> []" "ii \<noteq> []"
    using assms(7-9) by (auto simp: trim_Nil)
  have k: "oid bk = k"
    using find_Some_set [OF assms(2)] by simp
  have fb: "findById castObjectId i st = Inr (Some bk)"
    using assms(1,2) by (simp add: findById_Some)
  have nodup: "\<not> (body_isbn b \<noteq> JString (isbn bk) \<and> findOne_isbn (body_isbn b) st \<noteq> None)"
  proof (cases "ii = isbn bk")
    case True
    then show ?thesis by (simp add: assms(5))
  next
    case False
    with assms(12) have "trim ii \<notin> isbn ` set st" by blast
    then have "find (\<lambda>b. isbn b = trim ii) st = None"
      by (force simp: find_None_iff_set)
    then show ?thesis by (simp add: assms(5) findOne_isbn_def)
  qed
  have sv: "trim ii = isbn bk \<or> trim ii \<notin> isbn ` set st"
    using assms(12) by blast
  show ?thesis
    unfolding router_put_def
    using nodup
      assign_and_save_ok [where castDate = castDate and d = d and dv = dv and t = t and a = a
        and i = ii and st = st and doc = bk and now = now, OF assms(7-11) sv]
    by (auto simp add: assms(3-6) ne assms(10) fb k)
qed

lemma router_put_cases:
  assumes "router_put castObjectId castDate now i b st = (r, st')"
  shows "(st' = st \<and> \<not> success r \<and> (status r = 400 \<or> status r = 404 \<or> status r = 500)) \<or>
         (\<exists>k bk t a ii d dv bk'.
            castObjectId i = Some k \<and> find (\<lambda>b. oid b = k) st = Some bk \<and>
            body_title b = JString t \<and> body_author b = JString a \<and> body_isbn b = JString ii \<and>
            body_publicationDate b = JString d \<and>
            trim t \<noteq> [] \<and> trim a \<noteq> [] \<and> trim ii \<noteq> [] \<and> d \<noteq> [] \<and> castDate d = Inr dv \<and>
            (trim ii = isbn bk \<or> trim ii \<notin> isbn ` set st) \<and>
            bk' = bk\<lparr>title := trim t, author := trim a, isbn := trim ii, publicationDate := dv,
                      updatedAt := (if bk\<lparr>title := trim t, author := trim a, isbn := trim ii,
                                           publicationDate := dv\<rparr> = bk
                                    then updatedAt bk else now)\<rparr> \<and>
            r = \<lparr>status = 200, success = True, message = Some ''Book updated successfully'',
                  count = None, data = Doc bk'\<rparr> \<and>
            st' = (if bk\<lparr>title := trim t, author := trim a, isbn := trim ii,
                          publicationDate := dv\<rparr> = bk
                   then st else replaceOne k bk' st))"
proof (cases "success r")
  case False
  with assms show ?thesis
    by (auto simp: router_put_def failure_def split: if_splits sum.splits option.splits)
next
  case True
  with assms obtain bk where fb: "findById castObjectId i st = Inr (Some bk)"
    by (auto simp: router_put_def failure_def split: if_splits sum.splits option.splits)
  then obtain k where k: "castObjectId i = Some k" "find (\<lambda>b. oid b = k) st = Some bk"
    by (auto simp: findById_Some)
  have ok: "oid bk = k"
    using find_Some_set [OF k(2)] by simp
  from assms True fb obtain bk' where
    sv: "assign_and_save castDate now bk (body_title b) (body_author b) (body_isbn b)
           (body_publicationDate b) st = Inr (bk', st')"
    and r: "r = \<lparr>status = 200, success = True, message = Some ''Book updated successfully'',
                  count = None, data = Doc bk'\<rparr>"
    by (auto simp: router_put_def failure_def split: if_splits sum.splits)
  from assign_and_save_Inr [OF sv, unfolded ok] k r show ?thesis
    by (intro disjI2) (elim exE conjE, intro exI conjI, assumption+)
qed

lemma router_delete_cases:
  assumes "router_delete castObjectId i st = (r, st')"
  shows "(st' = st \<and> \<not> success r \<and> (status r = 404 \<or> status r = 500)) \<or>
         (\<exists>k bk. castObjectId i = Some k \<and> find (\<lambda>b. oid b = k) st = Some bk \<and>
            st' = deleteOne k st \<and>
            r = \<lparr>status = 200, success = True, message = Some ''Book deleted successfully'',
                  count = None, data = NoData\<rparr>)"
  using assms
  by (auto simp: router_delete_def findById_def findByIdAndDelete_def failure_def
      split: option.splits)

section \<open>Well-formedness is kept by every request\<close>

lemma store_ok_Nil: "store_ok []"
  by (simp add: store_ok_def)

lemma store_ok_post:
  assumes "store_ok st"
  shows "store_ok (snd (router_post castDate now newId b st))"
proof -
  obtain r st' where eq: "router_post castDate now newId b st = (r, st')"
    by (cases "router_post castDate now newId b st")
  from router_post_cases [OF eq] show ?thesis
  proof
    assume "st' = st \<and> \<not> success r \<and> status r = 400"
    with assms eq show ?thesis by simp
  next
    assume "\<exists>t a i d dv.
            body_title b = JString t \<and> body_author b = JString a \<and> body_isbn b = JString i \<and>
            body_publicationDate b = JString d \<and>
            trim t \<noteq> [] \<and> trim a \<noteq> [] \<and> trim i \<noteq> [] \<and> d \<noteq> [] \<and> castDate d = Inr dv \<and>
            trim i \<notin> isbn ` set st \<and> newId \<notin> oid ` set st \<and>
            r = \<lparr>status = 201, success = True, message = Some ''Book added successfully'',
                  count = None,
                  data = Doc \<lparr>oid = newId, title = trim t, author = trim a, isbn = trim i,
                     publicationDate = dv, createdAt = now, updatedAt = now\<rparr>\<rparr> \<and>
            st' = st @ [\<lparr>oid = newId, title = trim t, author = trim a, isbn = trim i,
                     publicationDate = dv, createdAt = now, updatedAt = now\<rparr>]"
    then obtain t a i dv where x:
      "trim t \<noteq> []" "trim a \<noteq> []" "trim i \<noteq> []"
      "trim i \<notin> isbn ` set st" "newId \<notin> oid ` set st"
      "st' = st @ [\<lparr>oid = newId, title = trim t, author = trim a, isbn = trim i,
                     publicationDate = dv, createdAt = now, updatedAt = now\<rparr>]"
      by blast
    with assms have "store_ok st'"
      by (simp add: store_ok_def stored_ok_def trim_idem)
    with eq show ?thesis by simp
  qed
qed

lemma store_ok_delete:
  assumes "store_ok st"
  shows "store_ok (snd (router_delete castObjectId i st))"
proof -
  obtain r st' where eq: "router_delete castObjectId i st = (r, st')"
    by (cases "router_delete castObjectId i st")
  have "store_ok (deleteOne k st)" for k
    using assms set_deleteOne [of k st]
    by (auto simp: store_ok_def distinct_map_deleteOne list_all_iff)
  with router_delete_cases [OF eq] assms eq show ?thesis
    by auto
qed

lemma store_ok_put:
  assumes "store_ok st"
  shows "store_ok (snd (router_put castObjectId castDate now i b st))"
proof -
  obtain r st' where eq: "router_put castObjectId castDate now i b st = (r, st')"
    by (cases "router_put castObjectId castDate now i b st")
  from router_put_cases [OF eq] show ?thesis
  proof
    assume "st' = st \<and> \<not> success r \<and> (status r = 400 \<or> status r = 404 \<or> status r = 500)"
    with assms eq show ?thesis by simp
  next
    assume "\<exists>k bk t a ii d dv bk'.
            castObjectId i = Some k \<and> find (\<lambda>b. oid b = k) st = Some bk \<and>
            body_title b = JString t \<and> body_author b = JString a \<and> body_isbn b = JString ii \<and>
            body_publicationDate b = JString d \<and>
            trim t \<noteq> [] \<and> trim a \<noteq> [] \<and> trim ii \<noteq> [] \<and> d \<noteq> [] \<and> castDate d = Inr dv \<and>
            (trim ii = isbn bk \<or> trim ii \<notin> isbn ` set st) \<and>
            bk' = bk\<lparr>title := trim t, author := trim a, isbn := trim ii, publicationDate := dv,
                      updatedAt := (if bk\<lparr>title := trim t, author := trim a, isbn := trim ii,
                                           publicationDate := dv\<rparr> = bk
                                    then updatedAt bk else now)\<rparr> \<and>
            r = \<lparr>status = 200, success = True, message = Some ''Book updated successfully'',
                  count = None, data = Doc bk'\<rparr> \<and>
            st' = (if bk\<lparr>title := trim t, author := trim a, isbn := trim ii,
                          publicationDate := dv\<rparr> = bk
                   then st else replaceOne k bk' st)"
    then obtain k bk t a ii dv bk' where x:
      "find (\<lambda>b. oid b = k) st = Some bk"
      "trim t \<noteq> []" "trim a \<noteq> []" "trim ii \<noteq> []"
      "trim ii = isbn bk \<or> trim ii \<notin> isbn ` set st"
      "bk' = bk\<lparr>title := trim t, author := trim a, isbn := trim ii, publicationDate := dv,
                      updatedAt := (if bk\<lparr>title := trim t, author := trim a, isbn := trim ii,
                                           publicationDate := dv\<rparr> = bk
                                    then updatedAt bk else now)\<rparr>"
      "st' = st \<or> st' = replaceOne k bk' st"
      by metis
    have k: "oid bk' = k" "isbn bk' = trim ii"
      using find_Some_set [OF x(1)] x(6) by simp_all
    have ok': "stored_ok bk'"
      using x(2-4) by (simp add: stored_ok_def x(6) trim_idem)
    have "store_ok (replaceOne k bk' st)"
    proof -
      have "distinct (map oid (replaceOne k bk' st))"
        using assms by (simp add: map_oid_replaceOne k store_ok_def)
      moreover have "distinct (map isbn (replaceOne k bk' st))"
        using x(5)
      proof
        assume "trim ii = isbn bk"
        then show ?thesis
          using assms map_isbn_replaceOne_same [OF x(1), of bk'] k
          by (simp add: store_ok_def)
      next
        assume "trim ii \<notin> isbn ` set st"
        then show ?thesis
          using assms k by (simp add: distinct_isbn_replaceOne_fresh store_ok_def)
      qed
      moreover have "list_all stored_ok (replaceOne k bk' st)"
        using assms ok' set_replaceOne [of k bk' st]
        by (auto simp: store_ok_def list_all_iff)
      ultimately show ?thesis by (simp add: store_ok_def)
    qed
    with x(7) assms eq show ?thesis by auto
  qed
qed

lemma snd_router_get_all: "snd (router_get_all st) = st"
  by (simp add: router_get_all_def Let_def)

lemma snd_router_get_id: "snd (router_get_id castObjectId i st) = st"
  by (simp add: router_get_id_def split: sum.splits option.splits)

lemma store_ok_handle:
  "store_ok st \<Longrightarrow> store_ok (snd (handle castObjectId castDate req st))"
  by (cases req)
    (simp_all add: store_ok_post store_ok_put store_ok_delete snd_router_get_all
      snd_router_get_id)

lemma store_ok_run_from:
  "store_ok st \<Longrightarrow> store_ok (run castObjectId castDate reqs st)"
  by (induction reqs arbitrary: st) (simp_all add: store_ok_handle)

lemma store_ok_run: "store_ok (run castObjectId castDate reqs [])"
  by (simp add: store_ok_run_from store_ok_Nil)

section \<open>Missing fields (C2)\<close>

text \<open>
  C2. A POST whose title, author, isbn or publicationDate is missing or empty is answered
  with status 400 and the message that names the required fields, and the collection is
  left as it was: nothing is persisted.
\<close>

theorem post_missing_field_rejected:
  assumes "falsy (body_title b) \<or> falsy (body_author b) \<or> falsy (body_isbn b) \<or>
           falsy (body_publicationDate b)"
  shows "router_post castDate now newId b st =
     (\<lparr>status = 400, success = False,
       message = Some
         ''Please provide all required fields: title, author, ISBN, and publication date'',
       count = None, data = NoData\<rparr>, st)"
  using assms by (simp add: router_post_def failure_def)

theorem post_missing_field_rejected_witness:
  "falsy (body_author \<lparr>body_title = JString ''Dune'', body_author = JString [],
       body_isbn = JString ''978-0-441-17271-9'', body_publicationDate = JUndefined\<rparr>) \<and>
   router_post castDate_sample 1000 1
     \<lparr>body_title = JString ''Dune'', body_author = JString [],
       body_isbn = JString ''978-0-441-17271-9'', body_publicationDate = JUndefined\<rparr> [] =
     (\<lparr>status = 400, success = False,
       message = Some
         ''Please provide all required fields: title, author, ISBN, and publication date'',
       count = None, data = NoData\<rparr>, [])"
proof -
  have h: "falsy (body_author \<lparr>body_title = JString ''Dune'', body_author = JString [],
       body_isbn = JString ''978-0-441-17271-9'', body_publicationDate = JUndefined\<rparr>)"
    by simp
  from h have h': "falsy (body_title \<lparr>body_title = JString ''Dune'', body_author = JString [],
       body_isbn = JString ''978-0-441-17271-9'', body_publicationDate = JUndefined\<rparr>) \<or>
     falsy (body_author \<lparr>body_title = JString ''Dune'', body_author = JString [],
       body_isbn = JString ''978-0-441-17271-9'', body_publicationDate = JUndefined\<rparr>) \<or>
     falsy (body_isbn \<lparr>body_title = JString ''Dune'', body_author = JString [],
       body_isbn = JString ''978-0-441-17271-9'', body_publicationDate = JUndefined\<rparr>) \<or>
     falsy (body_publicationDate \<lparr>body_title = JString ''Dune'', body_author = JString [],
       body_isbn = JString ''978-0-441-17271-9'', body_publicationDate = JUndefined\<rparr>)"
    by blast
  show ?thesis
    using h post_missing_field_rejected [OF h', of castDate_sample 1000 1 "[]"] by blast
qed

section \<open>Malformed identifiers (C8)\<close>

text \<open>
  C8, as the spec states it, fails: an id that is no ObjectId is not answered like an
  absent one. With the cast of 24 hexadecimal digits, GET and DELETE of the id \<open>abc\<close>
  answer with status 500 and the generic message, while a well-formed id that no Book has
  is answered with status 404 and \<open>Book not found\<close>.
\<close>

theorem malformed_id_not_NotFound:
  "router_get_id castObjectId_hex24 ''abc'' [] =
     (failure 500 ''Failed to retrieve book. Please try again later.'', []) \<and>
   router_get_id castObjectId_hex24 ''507f1f77bcf86cd799439011'' [] =
     (failure 404 ''Book not found'', []) \<and>
   router_delete castObjectId_hex24 ''abc'' [] =
     (failure 500 ''Failed to delete book. Please try again later.'', []) \<and>
   router_delete castObjectId_hex24 ''507f1f77bcf86cd799439011'' [] =
     (failure 404 ''Book not found'', []) \<and>
   status (fst (router_get_id castObjectId_hex24 ''abc'' [])) \<noteq> 404"
  by (simp add: router_get_id_def router_delete_def findById_def castObjectId_hex24_def
      hexDigit_def failure_def)

text \<open>
  C8, amended. When the cast of the id to an ObjectId fails, GET and DELETE answer with
  status 500 and their generic message, and so does PUT once its body has all four
  fields (a PUT with a missing field is answered with 400 before the id is looked at).
  The collection is left as it was. A well-formed id that no Book has is answered with
  404 by all three.
\<close>

theorem malformed_id_internal_failure:
  "(castObjectId i = None \<longrightarrow>
      router_get_id castObjectId i st =
        (failure 500 ''Failed to retrieve book. Please try again later.'', st) \<and>
      router_delete castObjectId i st =
        (failure 500 ''Failed to delete book. Please try again later.'', st) \<and>
      router_put castObjectId castDate now i b st =
        (if falsy (body_title b) \<or> falsy (body_author b) \<or> falsy (body_isbn b) \<or>
            falsy (body_publicationDate b)
         then (failure 400
           ''Please provide all required fields: title, author, ISBN, and publication date'', st)
         else (failure 500 ''Failed to update book. Please try again later.'', st))) \<and>
   (castObjectId i = Some k \<and> k \<notin> oid ` set st \<longrightarrow>
      router_get_id castObjectId i st = (failure 404 ''Book not found'', st) \<and>
      router_delete castObjectId i st = (failure 404 ''Book not found'', st) \<and>
      router_put castObjectId castDate now i b st =
        (if falsy (body_title b) \<or> falsy (body_author b) \<or> falsy (body_isbn b) \<or>
            falsy (body_publicationDate b)
         then (failure 400
           ''Please provide all required fields: title, author, ISBN, and publication date'', st)
         else (failure 404 ''Book not found'', st)))"
proof -
  have absent: "find (\<lambda>b. oid b = k) st = None" if "k \<notin> oid ` set st"
    using that by (force simp: find_None_iff_set)
  show ?thesis
    by (auto simp: router_get_id_def router_delete_def router_put_def findById_def absent)
qed

theorem malformed_id_internal_failure_witness:
  "castObjectId_hex24 ''not-an-id'' = None \<and>
   router_get_id castObjectId_hex24 ''not-an-id'' [] =
     (failure 500 ''Failed to retrieve book. Please try again later.'', []) \<and>
   router_delete castObjectId_hex24 ''not-an-id'' [] =
     (failure 500 ''Failed to delete book. Please try again later.'', []) \<and>
   castObjectId_hex24 ''000000000000000000000007'' = Some 7 \<and>
   router_get_id castObjectId_hex24 ''000000000000000000000007'' [] =
     (failure 404 ''Book not found'', [])"
proof -
  have h1: "castObjectId_hex24 ''not-an-id'' = None"
    by (simp add: castObjectId_hex24_def)
  have h2: "castObjectId_hex24 ''000000000000000000000007'' = Some 7"
    by (simp add: castObjectId_hex24_def hexDigit_def)
  have h3: "(7 :: nat) \<notin> oid ` set []"
    by simp
  show ?thesis
    using h1 h2 h3
      malformed_id_internal_failure [of castObjectId_hex24 "''not-an-id''" "[]"]
      malformed_id_internal_failure [of castObjectId_hex24 "''000000000000000000000007''" "[]" _ _ _ 7]
    by blast
qed

section \<open>ISBN uniqueness (C9)\<close>

lemma distinct_isbn_post:
  assumes "distinct (map isbn st)"
  shows "distinct (map isbn (snd (router_post castDate now newId b st)))"
proof -
  obtain r st' where eq: "router_post castDate now newId b st = (r, st')"
    by (cases "router_post castDate now newId b st")
  from router_post_cases [OF eq] assms have "distinct (map isbn st')"
    by auto
  with eq show ?thesis by simp
qed

lemma distinct_isbn_delete:
  assumes "distinct (map isbn st)"
  shows "distinct (map isbn (snd (router_delete castObjectId i st)))"
proof -
  obtain r st' where eq: "router_delete castObjectId i st = (r, st')"
    by (cases "router_delete castObjectId i st")
  from router_delete_cases [OF eq] assms have "distinct (map isbn st')"
    by (auto simp: distinct_map_deleteOne)
  with eq show ?thesis by simp
qed

lemma distinct_isbn_put:
  assumes "distinct (map isbn st)"
  shows "distinct (map isbn (snd (router_put castObjectId castDate now i b st)))"
proof -
  obtain r st' where eq: "router_put castObjectId castDate now i b st = (r, st')"
    by (cases "router_put castObjectId castDate now i b st")
  from router_put_cases [OF eq] have "distinct (map isbn st')"
  proof
    assume "st' = st \<and> \<not> success r \<and> (status r = 400 \<or> status r = 404 \<or> status r = 500)"
    with assms show ?thesis by simp
  next
    assume "\<exists>k bk t a ii d dv bk'.
            castObjectId i = Some k \<and> find (\<lambda>b. oid b = k) st = Some bk \<and>
            body_title b = JString t \<and> body_author b = JString a \<and> body_isbn b = JString ii \<and>
            body_publicationDate b = JString d \<and>
            trim t \<noteq> [] \<and> trim a \<noteq> [] \<and> trim ii \<noteq> [] \<and> d \<noteq> [] \<and> castDate d = Inr dv \<and>
            (trim ii = isbn bk \<or> trim ii \<notin> isbn ` set st) \<and>
            bk' = bk\<lparr>title := trim t, author := trim a, isbn := trim ii, publicationDate := dv,
                      updatedAt := (if bk\<lparr>title := trim t, author := trim a, isbn := trim ii,
                                           publicationDate := dv\<rparr> = bk
                                    then updatedAt bk else now)\<rparr> \<and>
            r = \<lparr>status = 200, success = True, message = Some ''Book updated successfully'',
                  count = None, data = Doc bk'\<rparr> \<and>
            st' = (if bk\<lparr>title := trim t, author := trim a, isbn := trim ii,
                          publicationDate := dv\<rparr> = bk
                   then st else replaceOne k bk' st)"
    then obtain k bk ii bk' where x:
      "find (\<lambda>b. oid b = k) st = Some bk"
      "trim ii = isbn bk \<or> trim ii \<notin> isbn ` set st"
      "isbn bk' = trim ii"
      "st' = st \<or> st' = replaceOne k bk' st"
      by (metis (no_types, lifting) book.select_convs(4) book.surjective book.update_convs(4,5,7))
    have "distinct (map isbn (replaceOne k bk' st))"
      using x(2)
    proof
      assume "trim ii = isbn bk"
      then show ?thesis
        using assms map_isbn_replaceOne_same [OF x(1), of bk'] x(3) by simp
    next
      assume "trim ii \<notin> isbn ` set st"
      then show ?thesis
        using assms x(3) by (simp add: distinct_isbn_replaceOne_fresh)
    qed
    with x(4) assms show ?thesis by auto
  qed
  with eq show ?thesis by simp
qed

text \<open>
  C9. No two Books of a reachable collection share an isbn: the isbns of the collection
  that any sequence of requests builds from the empty one are pairwise distinct. And every
  operation keeps it so: if the isbns are distinct before a request (list, get, create,
  update or delete), they are distinct after it.
\<close>

theorem isbn_unique_invariant:
  "distinct (map isbn (run castObjectId castDate reqs [])) \<and>
   (distinct (map isbn st) \<longrightarrow>
      distinct (map isbn (snd (handle castObjectId castDate req st))))"
proof
  show "distinct (map isbn (run castObjectId castDate reqs []))"
    using store_ok_run [of castObjectId castDate reqs] by (simp add: store_ok_def)
  show "distinct (map isbn st) \<longrightarrow>
      distinct (map isbn (snd (handle castObjectId castDate req st)))"
    by (cases req)
      (simp_all add: distinct_isbn_post distinct_isbn_put distinct_isbn_delete
        snd_router_get_all snd_router_get_id)
qed

theorem isbn_unique_invariant_witness:
  "distinct (map isbn
     [\<lparr>oid = 1, title = ''Dune'', author = ''Herbert'', isbn = ''978-0-441-17271-9'',
       publicationDate = - 139449600000, createdAt = 1000, updatedAt = 1000\<rparr>]) \<and>
   distinct (map isbn (snd (handle castObjectId_hex24 castDate_sample
     (Post 2000 2 \<lparr>body_title = JString ''Neuromancer'', body_author = JString ''Gibson'',
        body_isbn = JString ''978-0-441-56956-4'', body_publicationDate = JString ''1984-07-01''\<rparr>)
     [\<lparr>oid = 1, title = ''Dune'', author = ''Herbert'', isbn = ''978-0-441-17271-9'',
       publicationDate = - 139449600000, createdAt = 1000, updatedAt = 1000\<rparr>]))) \<and>
   length (snd (handle castObjectId_hex24 castDate_sample
     (Post 2000 2 \<lparr>body_title = JString ''Neuromancer'', body_author = JString ''Gibson'',
        body_isbn = JString ''978-0-441-56956-4'', body_publicationDate = JString ''1984-07-01''\<rparr>)
     [\<lparr>oid = 1, title = ''Dune'', author = ''Herbert'', isbn = ''978-0-441-17271-9'',
       publicationDate = - 139449600000, createdAt = 1000, updatedAt = 1000\<rparr>])) = 2"
proof -
  have h: "distinct (map isbn
     [\<lparr>oid = 1, title = ''Dune'', author = ''Herbert'', isbn = ''978-0-441-17271-9'',
       publicationDate = - 139449600000, createdAt = 1000, updatedAt = 1000\<rparr>])"
    by simp
  have l: "length (snd (handle castObjectId_hex24 castDate_sample
     (Post 2000 2 \<lparr>body_title = JString ''Neuromancer'', body_author = JString ''Gibson'',
        body_isbn = JString ''978-0-441-56956-4'', body_publicationDate = JString ''1984-07-01''\<rparr>)
     [\<lparr>oid = 1, title = ''Dune'', author = ''Herbert'', isbn = ''978-0-441-17271-9'',
       publicationDate = - 139449600000, createdAt = 1000, updatedAt = 1000\<rparr>])) = 2"
    by (simp add: router_post_def findOne_isbn_def Book_create_def validate_def
        castDate_sample_def trim_def isSpace_def Let_def)
  show ?thesis
    using h l isbn_unique_invariant [of castObjectId_hex24 castDate_sample "[]"
      "[\<lparr>oid = 1, title = ''Dune'', author = ''Herbert'', isbn = ''978-0-441-17271-9'',
       publicationDate = - 139449600000, createdAt = 1000, updatedAt = 1000\<rparr>]"
      "Post 2000 2 \<lparr>body_title = JString ''Neuromancer'', body_author = JString ''Gibson'',
        body_isbn = JString ''978-0-441-56956-4'', body_publicationDate = JString ''1984-07-01''\<rparr>"]
    by blast
qed

section \<open>Creating a Book (C1, C3)\<close>

lemma find_append_None: "find P xs = None \<Longrightarrow> find P (xs @ ys) = find P ys"
  by (induction xs) (auto split: if_splits)

text \<open>
  C3. In a well-formed collection that holds a Book with isbn x, a POST whose isbn is x
  and whose other fields are present is answered with status 400 and the message
  \<open>A book with this ISBN already exists\<close>, and the collection, so also the number of
  Books, is as before.
\<close>

theorem post_duplicate_isbn_rejected:
  assumes "store_ok st" "c \<in> set st" "body_isbn b = JString (isbn c)"
    and "\<not> falsy (body_title b)" "\<not> falsy (body_author b)"
      "\<not> falsy (body_publicationDate b)"
  shows "router_post castDate now newId b st =
           (failure 400 ''A book with this ISBN already exists'', st) \<and>
         length (snd (router_post castDate now newId b st)) = length st"
proof -
  have ok: "stored_ok c"
    using assms(1,2) by (simp add: store_ok_def list_all_iff)
  then have ne: "isbn c \<noteq> []" and tr: "trim (isbn c) = isbn c"
    by (simp_all add: stored_ok_def)
  have "find (\<lambda>b. isbn b = isbn c) st \<noteq> None"
    using assms(2) by (auto simp: find_None_iff_set)
  then have "findOne_isbn (body_isbn b) st \<noteq> None"
    by (simp add: findOne_isbn_def assms(3) tr)
  then show ?thesis
    using assms(4-6) ne by (auto simp: router_post_def assms(3))
qed

theorem post_duplicate_isbn_rejected_witness:
  "store_ok [\<lparr>oid = 1, title = ''Dune'', author = ''Herbert'', isbn = ''978-0-441-17271-9'',
       publicationDate = - 139449600000, createdAt = 1000, updatedAt = 1000\<rparr>] \<and>
   router_post castDate_sample 2000 2
     \<lparr>body_title = JString ''Dune Messiah'', body_author = JString ''Herbert'',
       body_isbn = JString ''978-0-441-17271-9'', body_publicationDate = JString ''1965-08-01''\<rparr>
     [\<lparr>oid = 1, title = ''Dune'', author = ''Herbert'', isbn = ''978-0-441-17271-9'',
       publicationDate = - 139449600000, createdAt = 1000, updatedAt = 1000\<rparr>] =
   (failure 400 ''A book with this ISBN already exists'',
     [\<lparr>oid = 1, title = ''Dune'', author = ''Herbert'', isbn = ''978-0-441-17271-9'',
       publicationDate = - 139449600000, createdAt = 1000, updatedAt = 1000\<rparr>])"
proof -
  have h: "store_ok [\<lparr>oid = 1, title = ''Dune'', author = ''Herbert'',
       isbn = ''978-0-441-17271-9'',
       publicationDate = - 139449600000, createdAt = 1000, updatedAt = 1000\<rparr>]"
    by (simp add: store_ok_def stored_ok_def trim_def isSpace_def)
  show ?thesis
    using h post_duplicate_isbn_rejected [OF h, of
      "\<lparr>oid = 1, title = ''Dune'', author = ''Herbert'', isbn = ''978-0-441-17271-9'',
       publicationDate = - 139449600000, createdAt = 1000, updatedAt = 1000\<rparr>"
      "\<lparr>body_title = JString ''Dune Messiah'', body_author = JString ''Herbert'',
       body_isbn = JString ''978-0-441-17271-9'', body_publicationDate = JString ''1965-08-01''\<rparr>"
      castDate_sample 2000 2]
    by simp
qed

text \<open>
  C1, as the spec states it, fails. On the empty collection, a POST whose four fields are
  all present and non-empty is rejected with status 400 when its title is a single space,
  and when its publicationDate is text that is no date; and a POST whose title is
  \<open>Dune\<close> between two spaces succeeds with a Book whose title is \<open>Dune\<close>, not the
  submitted text.
\<close>

theorem post_nonempty_fields_not_enough:
  "router_post castDate_sample 1000 1
     \<lparr>body_title = JString '' '', body_author = JString ''Herbert'',
       body_isbn = JString ''978-0-441-17271-9'', body_publicationDate = JString ''1965-08-01''\<rparr>
     [] = (failure 400 ''Book title is required'', []) \<and>
   router_post castDate_sample 1000 1
     \<lparr>body_title = JString ''Dune'', body_author = JString ''Herbert'',
       body_isbn = JString ''978-0-441-17271-9'', body_publicationDate = JString ''soon''\<rparr>
     [] =
     (failure 400 (''Cast to date failed for value '' @ [CHR 0x22] @ ''soon'' @ [CHR 0x22] @
        '' (type string) at path '' @ [CHR 0x22] @ ''publicationDate'' @ [CHR 0x22]), []) \<and>
   router_post castDate_sample 1000 1
     \<lparr>body_title = JString '' Dune '', body_author = JString ''Herbert'',
       body_isbn = JString ''978-0-441-17271-9'', body_publicationDate = JString ''1965-08-01''\<rparr>
     [] =
     (\<lparr>status = 201, success = True, message = Some ''Book added successfully'', count = None,
       data = Doc \<lparr>oid = 1, title = ''Dune'', author = ''Herbert'',
         isbn = ''978-0-441-17271-9'', publicationDate = - 139449600000,
         createdAt = 1000, updatedAt = 1000\<rparr>\<rparr>,
      [\<lparr>oid = 1, title = ''Dune'', author = ''Herbert'',
         isbn = ''978-0-441-17271-9'', publicationDate = - 139449600000,
         createdAt = 1000, updatedAt = 1000\<rparr>])"
  by (simp add: router_post_def findOne_isbn_def Book_create_def validate_def
      castDate_sample_def trim_def isSpace_def Let_def)

text \<open>
  C1, amended. Let the title, author and isbn of a POST be strings that are not empty once
  trimmed, let its publicationDate be a non-empty string that casts to a date, let no Book
  of the collection have the trimmed isbn, and let the generated id be new to the
  collection. Then the POST is answered with status 201 and a Book that has the generated
  id, the trimmed title, author and isbn, the cast date, and the time of the request as
  createdAt and updatedAt; the collection is the old one with that Book appended; and a GET
  of that id on the new collection is answered with status 200 and the same Book.
\<close>

theorem post_created_then_found:
  assumes "body_title b = JString t" "body_author b = JString a" "body_isbn b = JString i"
    "body_publicationDate b = JString d"
    and "trim t \<noteq> []" "trim a \<noteq> []" "trim i \<noteq> []" "d \<noteq> []" "castDate d = Inr dv"
    and "trim i \<notin> isbn ` set st" "newId \<notin> oid ` set st"
    and "castObjectId idtext = Some newId"
  shows "(let doc = \<lparr>oid = newId, title = trim t, author = trim a, isbn = trim i,
                     publicationDate = dv, createdAt = now, updatedAt = now\<rparr>
          in router_post castDate now newId b st =
               (\<lparr>status = 201, success = True, message = Some ''Book added successfully'',
                 count = None, data = Doc doc\<rparr>, st @ [doc]) \<and>
             router_get_id castObjectId idtext (st @ [doc]) =
               (\<lparr>status = 200, success = True, message = None, count = None,
                 data = Doc doc\<rparr>, st @ [doc]))"
proof -
  have "find (\<lambda>b. oid b = newId) st = None"
    using assms(11) by (force simp: find_None_iff_set)
  then have "find (\<lambda>b. oid b = newId) (st @ [doc]) = Some doc" if "oid doc = newId" for doc
    using that by (simp add: find_append_None)
  then show ?thesis
    using router_post_created [where castDate = castDate and d = d and dv = dv and now = now,
        OF assms(1-11)]
    by (simp add: Let_def router_get_id_def findById_def assms(12))
qed

theorem post_created_then_found_witness:
  "trim '' Dune '' \<noteq> [] \<and> castDate_sample ''1965-08-01'' = Inr (- 139449600000) \<and>
   castObjectId_hex24 ''000000000000000000000002'' = Some 2 \<and>
   router_post castDate_sample 2000 2
     \<lparr>body_title = JString '' Dune '', body_author = JString ''Herbert'',
       body_isbn = JString ''978-0-441-17271-9'', body_publicationDate = JString ''1965-08-01''\<rparr>
     [] =
     (\<lparr>status = 201, success = True, message = Some ''Book added successfully'', count = None,
       data = Doc \<lparr>oid = 2, title = ''Dune'', author = ''Herbert'',
         isbn = ''978-0-441-17271-9'', publicationDate = - 139449600000,
         createdAt = 2000, updatedAt = 2000\<rparr>\<rparr>,
      [\<lparr>oid = 2, title = ''Dune'', author = ''Herbert'',
         isbn = ''978-0-441-17271-9'', publicationDate = - 139449600000,
         createdAt = 2000, updatedAt = 2000\<rparr>]) \<and>
   router_get_id castObjectId_hex24 ''000000000000000000000002''
     [\<lparr>oid = 2, title = ''Dune'', author = ''Herbert'',
         isbn = ''978-0-441-17271-9'', publicationDate = - 139449600000,
         createdAt = 2000, updatedAt = 2000\<rparr>] =
     (\<lparr>status = 200, success = True, message = None, count = None,
       data = Doc \<lparr>oid = 2, title = ''Dune'', author = ''Herbert'',
         isbn = ''978-0-441-17271-9'', publicationDate = - 139449600000,
         createdAt = 2000, updatedAt = 2000\<rparr>\<rparr>,
      [\<lparr>oid = 2, title = ''Dune'', author = ''Herbert'',
         isbn = ''978-0-441-17271-9'', publicationDate = - 139449600000,
         createdAt = 2000, updatedAt = 2000\<rparr>])"
proof -
  have tr: "trim '' Dune '' = ''Dune''" "trim ''Herbert'' = ''Herbert''"
    "trim ''978-0-441-17271-9'' = ''978-0-441-17271-9''"
    by (simp_all add: trim_def isSpace_def)
  have dt: "castDate_sample ''1965-08-01'' = Inr (- 139449600000)"
    by (simp add: castDate_sample_def)
  have idc: "castObjectId_hex24 ''000000000000000000000002'' = Some 2"
    by (simp add: castObjectId_hex24_def hexDigit_def)
  show ?thesis
    using tr dt idc
      post_created_then_found [of
        "\<lparr>body_title = JString '' Dune '', body_author = JString ''Herbert'',
          body_isbn = JString ''978-0-441-17271-9'',
          body_publicationDate = JString ''1965-08-01''\<rparr>"
        "'' Dune ''" "''Herbert''" "''978-0-441-17271-9''" "''1965-08-01''"
        castDate_sample "- 139449600000" "[]" 2 castObjectId_hex24
        "''000000000000000000000002''" 2000]
    by (simp add: Let_def)
qed

section \<open>Updating a Book (C4, C5)\<close>

text \<open>
  C4. Let the collection be well-formed and let the id of a PUT be that of the Book bk.
  If the body has all four fields and its isbn is the isbn of another Book of the
  collection, different from that of bk, the PUT is answered with status 400 and the message
  \<open>A book with this ISBN already exists\<close>, and the collection is as before, so bk keeps
  every field, updatedAt included. If the isbn of the body is the isbn of bk itself, the
  answer is never that one.
\<close>

theorem put_duplicate_isbn_rejected:
  assumes "store_ok st" "bk \<in> set st" "castObjectId i = Some (oid bk)"
  shows "(c \<in> set st \<and> isbn c \<noteq> isbn bk \<and> body_isbn b = JString (isbn c) \<and>
          \<not> falsy (body_title b) \<and> \<not> falsy (body_author b) \<and>
          \<not> falsy (body_publicationDate b) \<longrightarrow>
            router_put castObjectId castDate now i b st =
              (failure 400 ''A book with this ISBN already exists'', st)) \<and>
         (body_isbn b = JString (isbn bk) \<longrightarrow>
            fst (router_put castObjectId castDate now i b st) \<noteq>
              failure 400 ''A book with this ISBN already exists'')"
proof (intro conjI impI)
  have fb: "findById castObjectId i st = Inr (Some bk)"
    using assms by (simp add: findById_Some find_oid_distinct store_ok_def)
  {
    assume h: "c \<in> set st \<and> isbn c \<noteq> isbn bk \<and> body_isbn b = JString (isbn c) \<and>
          \<not> falsy (body_title b) \<and> \<not> falsy (body_author b) \<and>
          \<not> falsy (body_publicationDate b)"
    then have "stored_ok c"
      using assms(1) by (simp add: store_ok_def list_all_iff)
    then have ne: "isbn c \<noteq> []" and tr: "trim (isbn c) = isbn c"
      by (simp_all add: stored_ok_def)
    have "find (\<lambda>b. isbn b = isbn c) st \<noteq> None"
      using h by (auto simp: find_None_iff_set)
    then have "findOne_isbn (body_isbn b) st \<noteq> None"
      using h by (simp add: findOne_isbn_def tr)
    then show "router_put castObjectId castDate now i b st =
              (failure 400 ''A book with this ISBN already exists'', st)"
      using h ne fb by (auto simp: router_put_def)
  }
  {
    assume "body_isbn b = JString (isbn bk)"
    then show "fst (router_put castObjectId castDate now i b st) \<noteq>
              failure 400 ''A book with this ISBN already exists''"
      using fb by (auto simp: router_put_def failure_def split: sum.splits)
  }
qed

theorem put_duplicate_isbn_rejected_witness:
  "store_ok
     [\<lparr>oid = 1, title = ''Dune'', author = ''Herbert'', isbn = ''978-0-441-17271-9'',
        publicationDate = - 139449600000, createdAt = 1000, updatedAt = 1000\<rparr>,
      \<lparr>oid = 2, title = ''Neuromancer'', author = ''Gibson'', isbn = ''978-0-441-56956-4'',
        publicationDate = 457488000000, createdAt = 2000, updatedAt = 2000\<rparr>] \<and>
   castObjectId_hex24 ''000000000000000000000001'' = Some 1 \<and>
   router_put castObjectId_hex24 castDate_sample 3000 ''000000000000000000000001''
     \<lparr>body_title = JString ''Dune'', body_author = JString ''Herbert'',
       body_isbn = JString ''978-0-441-56956-4'', body_publicationDate = JString ''1965-08-01''\<rparr>
     [\<lparr>oid = 1, title = ''Dune'', author = ''Herbert'', isbn = ''978-0-441-17271-9'',
        publicationDate = - 139449600000, createdAt = 1000, updatedAt = 1000\<rparr>,
      \<lparr>oid = 2, title = ''Neuromancer'', author = ''Gibson'', isbn = ''978-0-441-56956-4'',
        publicationDate = 457488000000, createdAt = 2000, updatedAt = 2000\<rparr>] =
     (failure 400 ''A book with this ISBN already exists'',
      [\<lparr>oid = 1, title = ''Dune'', author = ''Herbert'', isbn = ''978-0-441-17271-9'',
        publicationDate = - 139449600000, createdAt = 1000, updatedAt = 1000\<rparr>,
       \<lparr>oid = 2, title = ''Neuromancer'', author = ''Gibson'', isbn = ''978-0-441-56956-4'',
        publicationDate = 457488000000, createdAt = 2000, updatedAt = 2000\<rparr>]) \<and>
   fst (router_put castObjectId_hex24 castDate_sample 3000 ''000000000000000000000001''
     \<lparr>body_title = JString ''Dune (new edition)'', body_author = JString ''Herbert'',
       body_isbn = JString ''978-0-441-17271-9'', body_publicationDate = JString ''1965-08-01''\<rparr>
     [\<lparr>oid = 1, title = ''Dune'', author = ''Herbert'', isbn = ''978-0-441-17271-9'',
        publicationDate = - 139449600000, createdAt = 1000, updatedAt = 1000\<rparr>,
      \<lparr>oid = 2, title = ''Neuromancer'', author = ''Gibson'', isbn = ''978-0-441-56956-4'',
        publicationDate = 457488000000, createdAt = 2000, updatedAt = 2000\<rparr>]) \<noteq>
     failure 400 ''A book with this ISBN already exists''"
proof -
  let ?dune = "\<lparr>oid = 1, title = ''Dune'', author = ''Herbert'', isbn = ''978-0-441-17271-9'',
        publicationDate = - 139449600000, createdAt = 1000, updatedAt = 1000\<rparr>"
  let ?neuro = "\<lparr>oid = 2, title = ''Neuromancer'', author = ''Gibson'',
        isbn = ''978-0-441-56956-4'',
        publicationDate = 457488000000, createdAt = 2000, updatedAt = 2000\<rparr>"
  have h1: "store_ok [?dune, ?neuro]"
    by (simp add: store_ok_def stored_ok_def trim_def isSpace_def)
  have h2: "?dune \<in> set [?dune, ?neuro]"
    by simp
  have h3: "castObjectId_hex24 ''000000000000000000000001'' = Some (oid ?dune)"
    by (simp add: castObjectId_hex24_def hexDigit_def)
  show ?thesis
    using h1 h3
      put_duplicate_isbn_rejected [where castObjectId = castObjectId_hex24
        and i = "''000000000000000000000001''" and c = ?neuro and castDate = castDate_sample
        and now = 3000 and b = "\<lparr>body_title = JString ''Dune'', body_author = JString ''Herbert'',
          body_isbn = JString ''978-0-441-56956-4'',
          body_publicationDate = JString ''1965-08-01''\<rparr>", OF h1 h2 h3]
      put_duplicate_isbn_rejected [where castObjectId = castObjectId_hex24
        and i = "''000000000000000000000001''" and c = ?neuro and castDate = castDate_sample
        and now = 3000 and b = "\<lparr>body_title = JString ''Dune (new edition)'',
          body_author = JString ''Herbert'', body_isbn = JString ''978-0-441-17271-9'',
          body_publicationDate = JString ''1965-08-01''\<rparr>", OF h1 h2 h3]
    by simp
qed

lemma book_unchanged_iff:
  "bk\<lparr>title := t, author := a, isbn := i, publicationDate := d\<rparr> = bk \<longleftrightarrow>
     t = title bk \<and> a = author bk \<and> i = isbn bk \<and> d = publicationDate bk"
  by (cases bk) auto

lemma oid_inj_distinct:
  "distinct (map oid st) \<Longrightarrow> x \<in> set st \<Longrightarrow> y \<in> set st \<Longrightarrow> oid x = oid y \<Longrightarrow> x = y"
  by (meson distinct_map inj_onD)

lemma set_replaceOne_distinct:
  "distinct (map oid st) \<Longrightarrow> bk \<in> set st \<Longrightarrow>
   set (replaceOne (oid bk) doc st) = insert doc (set st - {bk})"
proof (induction st)
  case Nil
  then show ?case by simp
next
  case (Cons c cs)
  show ?case
  proof (cases "oid c = oid bk")
    case True
    with Cons.prems have "c = bk"
      by (metis oid_inj_distinct list.set_intros(1))
    moreover from Cons.prems this have "bk \<notin> set cs"
      by auto
    ultimately show ?thesis by auto
  next
    case False
    with Cons show ?thesis by auto
  qed
qed

lemma handle_keeps_createdAt:
  assumes "store_ok st" "x \<in> set st" "y \<in> set (snd (handle castObjectId castDate req st))"
    "oid y = oid x"
  shows "createdAt y = createdAt x"
proof -
  have d: "distinct (map oid st)"
    using assms(1) by (simp add: store_ok_def)
  have same: "createdAt y = createdAt x" if "y \<in> set st"
    using oid_inj_distinct [OF d assms(2) that] assms(4) by simp
  show ?thesis
  proof (cases req)
    case GetAll
    with assms(3) same show ?thesis by (simp add: snd_router_get_all)
  next
    case (GetId i)
    with assms(3) same show ?thesis by (simp add: snd_router_get_id)
  next
    case (Post now newId b)
    obtain r st' where eq: "router_post castDate now newId b st = (r, st')"
      by (cases "router_post castDate now newId b st")
    with assms(3) Post have y: "y \<in> set st'" by simp
    from router_post_cases [OF eq] y assms(2,4) same show ?thesis
      by (auto simp: image_iff)
  next
    case (Delete i)
    obtain r st' where eq: "router_delete castObjectId i st = (r, st')"
      by (cases "router_delete castObjectId i st")
    with assms(3) Delete have y: "y \<in> set st'" by simp
    from router_delete_cases [OF eq] y same set_deleteOne show ?thesis
      by auto
  next
    case (Put now i b)
    obtain r st' where eq: "router_put castObjectId castDate now i b st = (r, st')"
      by (cases "router_put castObjectId castDate now i b st")
    with assms(3) Put have y: "y \<in> set st'" by simp
    from router_put_cases [OF eq] show ?thesis
    proof
      assume "st' = st \<and> \<not> success r \<and> (status r = 400 \<or> status r = 404 \<or> status r = 500)"
      with y same show ?thesis by simp
    next
      assume "\<exists>k bk t a ii d dv bk'.
            castObjectId i = Some k \<and> find (\<lambda>b. oid b = k) st = Some bk \<and>
            body_title b = JString t \<and> body_author b = JString a \<and> body_isbn b = JString ii \<and>
            body_publicationDate b = JString d \<and>
            trim t \<noteq> [] \<and> trim a \<noteq> [] \<and> trim ii \<noteq> [] \<and> d \<noteq> [] \<and> castDate d = Inr dv \<and>
            (trim ii = isbn bk \<or> trim ii \<notin> isbn ` set st) \<and>
            bk' = bk\<lparr>title := trim t, author := trim a, isbn := trim ii, publicationDate := dv,
                      updatedAt := (if bk\<lparr>title := trim t, author := trim a, isbn := trim ii,
                                           publicationDate := dv\<rparr> = bk
                                    then updatedAt bk else now)\<rparr> \<and>
            r = \<lparr>status = 200, success = True, message = Some ''Book updated successfully'',
                  count = None, data = Doc bk'\<rparr> \<and>
            st' = (if bk\<lparr>title := trim t, author := trim a, isbn := trim ii,
                          publicationDate := dv\<rparr> = bk
                   then st else replaceOne k bk' st)"
      then obtain k bk bk' where x:
        "find (\<lambda>b. oid b = k) st = Some bk"
        "oid bk' = oid bk" "createdAt bk' = createdAt bk"
        "st' = st \<or> st' = replaceOne k bk' st"
        by (metis (no_types, lifting) book.select_convs(1,6) book.surjective
            book.update_convs(2,3,4,5,7))
      have bk: "bk \<in> set st" "oid bk = k"
        using find_Some_set [OF x(1)] by simp_all
      from x(4) y set_replaceOne [of k bk' st] have "y \<in> set st \<or> y = bk'"
        by auto
      then show ?thesis
      proof
        assume "y \<in> set st"
        then show ?thesis by (rule same)
      next
        assume "y = bk'"
        with assms(4) x(2) have "oid bk = oid x" by simp
        with oid_inj_distinct [OF d bk(1) assms(2)] have "bk = x" by simp
        with \<open>y = bk'\<close> x(3) show ?thesis by simp
      qed
    qed
  qed
qed

lemma handle_keeps_oid:
  assumes "store_ok st" "x \<in> set st"
  shows "(\<exists>i. req = Delete i \<and> castObjectId i = Some (oid x)) \<or>
         oid x \<in> oid ` set (snd (handle castObjectId castDate req st))"
proof (cases req)
  case GetAll
  with assms(2) show ?thesis by (simp add: snd_router_get_all)
next
  case (GetId i)
  with assms(2) show ?thesis by (simp add: snd_router_get_id)
next
  case (Post now newId b)
  obtain r st' where eq: "router_post castDate now newId b st = (r, st')"
    by (cases "router_post castDate now newId b st")
  from router_post_cases [OF eq] assms(2) have "x \<in> set st'"
    by auto
  with eq Post show ?thesis by simp
next
  case (Delete i)
  have d: "distinct (map oid st)"
    using assms(1) by (simp add: store_ok_def)
  obtain r st' where eq: "router_delete castObjectId i st = (r, st')"
    by (cases "router_delete castObjectId i st")
  from router_delete_cases [OF eq]
  have "castObjectId i = Some (oid x) \<or> x \<in> set st'"
    using assms(2) set_deleteOne_distinct [OF d] by auto
  with eq Delete show ?thesis by auto
next
  case (Put now i b)
  obtain r st' where eq: "router_put castObjectId castDate now i b st = (r, st')"
    by (cases "router_put castObjectId castDate now i b st")
  from router_put_cases [OF eq] have "map oid st' = map oid st"
  proof
    assume "st' = st \<and> \<not> success r \<and> (status r = 400 \<or> status r = 404 \<or> status r = 500)"
    then show ?thesis by simp
  next
    assume "\<exists>k bk t a ii d dv bk'.
            castObjectId i = Some k \<and> find (\<lambda>b. oid b = k) st = Some bk \<and>
            body_title b = JString t \<and> body_author b = JString a \<and> body_isbn b = JString ii \<and>
            body_publicationDate b = JString d \<and>
            trim t \<noteq> [] \<and> trim a \<noteq> [] \<and> trim ii \<noteq> [] \<and> d \<noteq> [] \<and> castDate d = Inr dv \<and>
            (trim ii = isbn bk \<or> trim ii \<notin> isbn ` set st) \<and>
            bk' = bk\<lparr>title := trim t, author := trim a, isbn := trim ii, publicationDate := dv,
                      updatedAt := (if bk\<lparr>title := trim t, author := trim a, isbn := trim ii,
                                           publicationDate := dv\<rparr> = bk
                                    then updatedAt bk else now)\<rparr> \<and>
            r = \<lparr>status = 200, success = True, message = Some ''Book updated successfully'',
                  count = None, data = Doc bk'\<rparr> \<and>
            st' = (if bk\<lparr>title := trim t, author := trim a, isbn := trim ii,
                          publicationDate := dv\<rparr> = bk
                   then st else replaceOne k bk' st)"
    then obtain k bk bk' where x:
      "find (\<lambda>b. oid b = k) st = Some bk" "oid bk' = oid bk"
      "st' = st \<or> st' = replaceOne k bk' st"
      by (metis (no_types, lifting) book.select_convs(1) book.surjective
          book.update_convs(2,3,4,5,7))
    have "oid bk' = k"
      using find_Some_set [OF x(1)] x(2) by simp
    with x(3) show ?thesis
      by (auto simp: map_oid_replaceOne)
  qed
  then have "oid ` set st' = oid ` set st"
    by (metis list.set_map)
  with assms(2) eq Put show ?thesis by simp
qed

text \<open>
  C5, as the spec states it, fails: a PUT that succeeds need not refresh updatedAt. A PUT
  at time 9000 that submits to a Book the title, author, isbn and date it already has is
  answered with status 200 and the Book as it was, with its updatedAt of 1000.
\<close>

theorem put_same_fields_keeps_updatedAt:
  "router_put castObjectId_hex24 castDate_sample 9000 ''000000000000000000000001''
     \<lparr>body_title = JString ''Dune'', body_author = JString ''Herbert'',
       body_isbn = JString ''978-0-441-17271-9'', body_publicationDate = JString ''1965-08-01''\<rparr>
     [\<lparr>oid = 1, title = ''Dune'', author = ''Herbert'', isbn = ''978-0-441-17271-9'',
        publicationDate = - 139449600000, createdAt = 1000, updatedAt = 1000\<rparr>] =
     (\<lparr>status = 200, success = True, message = Some ''Book updated successfully'',
       count = None,
       data = Doc \<lparr>oid = 1, title = ''Dune'', author = ''Herbert'',
         isbn = ''978-0-441-17271-9'', publicationDate = - 139449600000,
         createdAt = 1000, updatedAt = 1000\<rparr>\<rparr>,
      [\<lparr>oid = 1, title = ''Dune'', author = ''Herbert'', isbn = ''978-0-441-17271-9'',
        publicationDate = - 139449600000, createdAt = 1000, updatedAt = 1000\<rparr>])"
  by (simp add: router_put_def findById_def castObjectId_hex24_def hexDigit_def
      findOne_isbn_def assign_and_save_def validate_def castDate_sample_def trim_def
      isSpace_def Let_def)

text \<open>
  C5, amended. Let the collection be well-formed and let the id of a PUT be that of the
  Book bk. Let the title, author and isbn of the body be strings that are not empty once
  trimmed, let its publicationDate be a non-empty string that casts to a date, and let its
  isbn either be the isbn of bk as it is stored or, trimmed, be the isbn of no Book. Then
  the PUT is answered with status 200 and the Book bk with exactly its title, author and
  isbn replaced by the trimmed inputs and its publicationDate by the cast date, and with
  updatedAt set to the time of the request if one of the four values changed and left as
  it was otherwise; that Book takes the place of bk in the collection and the other Books
  stay. Its id and createdAt are those of bk. And no request of any kind changes the id
  or the createdAt of a Book: unless the request deletes it, a Book of the collection is
  still there under its id after the request, and a Book after the request has the
  createdAt of the Book that had its id before.
\<close>

theorem put_replaces_fields:
  assumes "store_ok st"
  shows "(bk \<in> set st \<and> castObjectId i = Some (oid bk) \<and>
          body_title b = JString t \<and> body_author b = JString a \<and> body_isbn b = JString ii \<and>
          body_publicationDate b = JString d \<and>
          trim t \<noteq> [] \<and> trim a \<noteq> [] \<and> trim ii \<noteq> [] \<and> d \<noteq> [] \<and> castDate d = Inr dv \<and>
          (ii = isbn bk \<or> trim ii \<notin> isbn ` set st) \<longrightarrow>
            (let changed = (trim t \<noteq> title bk \<or> trim a \<noteq> author bk \<or> trim ii \<noteq> isbn bk \<or>
                            dv \<noteq> publicationDate bk);
                 bk' = bk\<lparr>title := trim t, author := trim a, isbn := trim ii,
                           publicationDate := dv,
                           updatedAt := (if changed then now else updatedAt bk)\<rparr>
             in router_put castObjectId castDate now i b st =
                  (\<lparr>status = 200, success = True,
                    message = Some ''Book updated successfully'', count = None,
                    data = Doc bk'\<rparr>, replaceOne (oid bk) bk' st) \<and>
                set (replaceOne (oid bk) bk' st) = insert bk' (set st - {bk}) \<and>
                oid bk' = oid bk \<and> createdAt bk' = createdAt bk)) \<and>
         (\<forall>x \<in> set st.
            ((\<exists>j. req = Delete j \<and> castObjectId j = Some (oid x)) \<or>
             oid x \<in> oid ` set (snd (handle castObjectId castDate req st))) \<and>
            (\<forall>y \<in> set (snd (handle castObjectId castDate req st)).
               oid y = oid x \<longrightarrow> createdAt y = createdAt x))"
proof (intro conjI impI ballI)
  have d: "distinct (map oid st)"
    using assms by (simp add: store_ok_def)
  {
    assume h: "bk \<in> set st \<and> castObjectId i = Some (oid bk) \<and>
          body_title b = JString t \<and> body_author b = JString a \<and> body_isbn b = JString ii \<and>
          body_publicationDate b = JString d \<and>
          trim t \<noteq> [] \<and> trim a \<noteq> [] \<and> trim ii \<noteq> [] \<and> d \<noteq> [] \<and> castDate d = Inr dv \<and>
          (ii = isbn bk \<or> trim ii \<notin> isbn ` set st)"
    have fnd: "find (\<lambda>b. oid b = oid bk) st = Some bk"
      using d h by (simp add: find_oid_distinct)
    have "stored_ok bk"
      using assms h by (simp add: store_ok_def list_all_iff)
    then have "trim (isbn bk) = isbn bk"
      by (simp add: stored_ok_def)
    with h have isbn_ok: "(ii = isbn bk \<and> trim ii = isbn bk) \<or> trim ii \<notin> isbn ` set st"
      by auto
    have put: "router_put castObjectId castDate now i b st =
     (if bk\<lparr>title := trim t, author := trim a, isbn := trim ii, publicationDate := dv\<rparr> = bk
      then (\<lparr>status = 200, success = True, message = Some ''Book updated successfully'',
              count = None, data = Doc bk\<rparr>, st)
      else (\<lparr>status = 200, success = True, message = Some ''Book updated successfully'',
              count = None,
              data = Doc (bk\<lparr>title := trim t, author := trim a, isbn := trim ii,
                             publicationDate := dv, updatedAt := now\<rparr>)\<rparr>,
            replaceOne (oid bk) (bk\<lparr>title := trim t, author := trim a, isbn := trim ii,
                             publicationDate := dv, updatedAt := now\<rparr>) st))"
      using h fnd isbn_ok
      by (intro router_put_updated [where castDate = castDate and d = d and dv = dv]) simp_all
    show "let changed = (trim t \<noteq> title bk \<or> trim a \<noteq> author bk \<or> trim ii \<noteq> isbn bk \<or>
                            dv \<noteq> publicationDate bk);
                 bk' = bk\<lparr>title := trim t, author := trim a, isbn := trim ii,
                           publicationDate := dv,
                           updatedAt := (if changed then now else updatedAt bk)\<rparr>
             in router_put castObjectId castDate now i b st =
                  (\<lparr>status = 200, success = True,
                    message = Some ''Book updated successfully'', count = None,
                    data = Doc bk'\<rparr>, replaceOne (oid bk) bk' st) \<and>
                set (replaceOne (oid bk) bk' st) = insert bk' (set st - {bk}) \<and>
                oid bk' = oid bk \<and> createdAt bk' = createdAt bk"
    proof (cases "bk\<lparr>title := trim t, author := trim a, isbn := trim ii,
                      publicationDate := dv\<rparr> = bk")
      case True
      then have same: "trim t = title bk" "trim a = author bk" "trim ii = isbn bk"
        "dv = publicationDate bk"
        by (simp_all add: book_unchanged_iff)
      have "bk\<lparr>title := title bk, author := author bk, isbn := isbn bk,
                publicationDate := publicationDate bk, updatedAt := updatedAt bk\<rparr> = bk"
        by simp
      then show ?thesis
        using put True h d
        by (simp add: Let_def same replaceOne_self [OF fnd] set_replaceOne_distinct
            insert_absorb)
    next
      case False
      then have "trim t \<noteq> title bk \<or> trim a \<noteq> author bk \<or> trim ii \<noteq> isbn bk \<or>
                 dv \<noteq> publicationDate bk"
        by (simp add: book_unchanged_iff)
      then show ?thesis
        using put False h d by (simp add: Let_def set_replaceOne_distinct)
    qed
  }
  {
    fix x
    assume "x \<in> set st"
    with assms show "(\<exists>j. req = Delete j \<and> castObjectId j = Some (oid x)) \<or>
             oid x \<in> oid ` set (snd (handle castObjectId castDate req st))"
      by (rule handle_keeps_oid)
  }
  {
    fix x y
    assume "x \<in> set st" "y \<in> set (snd (handle castObjectId castDate req st))" "oid y = oid x"
    with assms show "createdAt y = createdAt x"
      by (rule handle_keeps_createdAt)
  }
qed

theorem put_replaces_fields_witness:
  "store_ok
     [\<lparr>oid = 1, title = ''Dune'', author = ''Herbert'', isbn = ''978-0-441-17271-9'',
        publicationDate = - 139449600000, createdAt = 1000, updatedAt = 1000\<rparr>,
      \<lparr>oid = 2, title = ''Neuromancer'', author = ''Gibson'', isbn = ''978-0-441-56956-4'',
        publicationDate = 457488000000, createdAt = 2000, updatedAt = 2000\<rparr>] \<and>
   castObjectId_hex24 ''000000000000000000000001'' = Some 1 \<and>
   trim '' Dune (revised) '' = ''Dune (revised)'' \<and>
   router_put castObjectId_hex24 castDate_sample 3000 ''000000000000000000000001''
     \<lparr>body_title = JString '' Dune (revised) '', body_author = JString ''Herbert'',
       body_isbn = JString ''978-0-441-17271-9'', body_publicationDate = JString ''1965-08-01''\<rparr>
     [\<lparr>oid = 1, title = ''Dune'', author = ''Herbert'', isbn = ''978-0-441-17271-9'',
        publicationDate = - 139449600000, createdAt = 1000, updatedAt = 1000\<rparr>,
      \<lparr>oid = 2, title = ''Neuromancer'', author = ''Gibson'', isbn = ''978-0-441-56956-4'',
        publicationDate = 457488000000, createdAt = 2000, updatedAt = 2000\<rparr>] =
     (\<lparr>status = 200, success = True, message = Some ''Book updated successfully'',
       count = None,
       data = Doc \<lparr>oid = 1, title = ''Dune (revised)'', author = ''Herbert'',
         isbn = ''978-0-441-17271-9'', publicationDate = - 139449600000,
         createdAt = 1000, updatedAt = 3000\<rparr>\<rparr>,
      [\<lparr>oid = 1, title = ''Dune (revised)'', author = ''Herbert'',
         isbn = ''978-0-441-17271-9'', publicationDate = - 139449600000,
         createdAt = 1000, updatedAt = 3000\<rparr>,
       \<lparr>oid = 2, title = ''Neuromancer'', author = ''Gibson'', isbn = ''978-0-441-56956-4'',
        publicationDate = 457488000000, createdAt = 2000, updatedAt = 2000\<rparr>])"
proof -
  let ?dune = "\<lparr>oid = 1, title = ''Dune'', author = ''Herbert'', isbn = ''978-0-441-17271-9'',
        publicationDate = - 139449600000, createdAt = 1000, updatedAt = 1000\<rparr>"
  let ?neuro = "\<lparr>oid = 2, title = ''Neuromancer'', author = ''Gibson'',
        isbn = ''978-0-441-56956-4'',
        publicationDate = 457488000000, createdAt = 2000, updatedAt = 2000\<rparr>"
  let ?b = "\<lparr>body_title = JString '' Dune (revised) '', body_author = JString ''Herbert'',
       body_isbn = JString ''978-0-441-17271-9'',
       body_publicationDate = JString ''1965-08-01''\<rparr>"
  have h1: "store_ok [?dune, ?neuro]"
    by (simp add: store_ok_def stored_ok_def trim_def isSpace_def)
  have h2: "castObjectId_hex24 ''000000000000000000000001'' = Some 1"
    by (simp add: castObjectId_hex24_def hexDigit_def)
  have tr: "trim '' Dune (revised) '' = ''Dune (revised)''" "trim ''Herbert'' = ''Herbert''"
    "trim ''978-0-441-17271-9'' = ''978-0-441-17271-9''"
    by (simp_all add: trim_def isSpace_def)
  have dt: "castDate_sample ''1965-08-01'' = Inr (- 139449600000)"
    by (simp add: castDate_sample_def)
  show ?thesis
    using h1 h2 tr dt
      put_replaces_fields [OF h1, where bk = ?dune and castObjectId = castObjectId_hex24
        and i = "''000000000000000000000001''" and b = ?b and t = "'' Dune (revised) ''"
        and a = "''Herbert''" and ii = "''978-0-441-17271-9''" and d = "''1965-08-01''"
        and castDate = castDate_sample and dv = "- 139449600000" and now = 3000]
    by (simp add: Let_def)
qed

section \<open>Listing Books (C6)\<close>

lemma sorted_desc_sort_key:
  "sorted_wrt (\<lambda>x y. createdAt y \<le> createdAt x) (sort_key (\<lambda>b. - createdAt b) st)"
proof -
  have "sorted (map (\<lambda>b. - createdAt b) (sort_key (\<lambda>b. - createdAt b) st))"
    by (rule sorted_sort_key)
  then show ?thesis
    by (simp add: sorted_map)
qed

text \<open>
  C6, as the spec states it, fails: creating A and then B does not by itself make the list
  B, A. The list is ordered by the createdAt that each POST takes from the clock. When the
  two requests fall into the same millisecond, and when the clock has been set back between
  them, the list after a POST of Dune and then a POST of Neuromancer is Dune, Neuromancer.
\<close>

theorem list_created_order_needs_later_time:
  "fst (router_get_all (run castObjectId_hex24 castDate_sample
     [Post 1000 1 \<lparr>body_title = JString ''Dune'', body_author = JString ''Herbert'',
        body_isbn = JString ''978-0-441-17271-9'', body_publicationDate = JString ''1965-08-01''\<rparr>,
      Post 1000 2 \<lparr>body_title = JString ''Neuromancer'', body_author = JString ''Gibson'',
        body_isbn = JString ''978-0-441-56956-4'', body_publicationDate = JString ''1984-07-01''\<rparr>]
     [])) =
   \<lparr>status = 200, success = True, message = None, count = Some 2,
     data = Docs
       [\<lparr>oid = 1, title = ''Dune'', author = ''Herbert'', isbn = ''978-0-441-17271-9'',
          publicationDate = - 139449600000, createdAt = 1000, updatedAt = 1000\<rparr>,
        \<lparr>oid = 2, title = ''Neuromancer'', author = ''Gibson'', isbn = ''978-0-441-56956-4'',
          publicationDate = 457488000000, createdAt = 1000, updatedAt = 1000\<rparr>]\<rparr> \<and>
   fst (router_get_all (run castObjectId_hex24 castDate_sample
     [Post 1000 1 \<lparr>body_title = JString ''Dune'', body_author = JString ''Herbert'',
        body_isbn = JString ''978-0-441-17271-9'', body_publicationDate = JString ''1965-08-01''\<rparr>,
      Post 900 2 \<lparr>body_title = JString ''Neuromancer'', body_author = JString ''Gibson'',
        body_isbn = JString ''978-0-441-56956-4'', body_publicationDate = JString ''1984-07-01''\<rparr>]
     [])) =
   \<lparr>status = 200, success = True, message = None, count = Some 2,
     data = Docs
       [\<lparr>oid = 1, title = ''Dune'', author = ''Herbert'', isbn = ''978-0-441-17271-9'',
          publicationDate = - 139449600000, createdAt = 1000, updatedAt = 1000\<rparr>,
        \<lparr>oid = 2, title = ''Neuromancer'', author = ''Gibson'', isbn = ''978-0-441-56956-4'',
          publicationDate = 457488000000, createdAt = 900, updatedAt = 900\<rparr>]\<rparr>"
  by (simp add: router_get_all_def find_sort_createdAt_desc_def router_post_def
      findOne_isbn_def Book_create_def validate_def castDate_sample_def trim_def isSpace_def
      Let_def)

text \<open>
  C6, amended. On every collection, GET /api/books is answered with status 200, all Books
  of the collection (the same Books, each as often as it is stored) in the order of
  createdAt descending, and a count that is the number of the Books returned; the
  collection is left as it was. In particular, from the empty collection, a successful POST
  of A at time tA and then a successful POST of B at a strictly later time tB make the list
  B, A.
\<close>

theorem list_newest_first:
  "(\<exists>books.
      router_get_all st =
        (\<lparr>status = 200, success = True, message = None, count = Some (length books),
          data = Docs books\<rparr>, st) \<and>
      mset books = mset st \<and>
      sorted_wrt (\<lambda>x y. createdAt y \<le> createdAt x) books) \<and>
   (body_title bA = JString t \<and> body_author bA = JString a \<and> body_isbn bA = JString i \<and>
    body_publicationDate bA = JString d \<and>
    trim t \<noteq> [] \<and> trim a \<noteq> [] \<and> trim i \<noteq> [] \<and> d \<noteq> [] \<and> castDate d = Inr dv \<and>
    body_title bB = JString t' \<and> body_author bB = JString a' \<and> body_isbn bB = JString i' \<and>
    body_publicationDate bB = JString d' \<and>
    trim t' \<noteq> [] \<and> trim a' \<noteq> [] \<and> trim i' \<noteq> [] \<and> d' \<noteq> [] \<and> castDate d' = Inr dv' \<and>
    trim i \<noteq> trim i' \<and> idA \<noteq> idB \<and> tA < tB \<longrightarrow>
      fst (router_get_all
        (run castObjectId castDate [Post tA idA bA, Post tB idB bB] [])) =
        \<lparr>status = 200, success = True, message = None, count = Some 2,
          data = Docs
            [\<lparr>oid = idB, title = trim t', author = trim a', isbn = trim i',
               publicationDate = dv', createdAt = tB, updatedAt = tB\<rparr>,
             \<lparr>oid = idA, title = trim t, author = trim a, isbn = trim i,
               publicationDate = dv, createdAt = tA, updatedAt = tA\<rparr>]\<rparr>)"
proof (intro conjI impI)
  show "\<exists>books.
      router_get_all st =
        (\<lparr>status = 200, success = True, message = None, count = Some (length books),
          data = Docs books\<rparr>, st) \<and>
      mset books = mset st \<and>
      sorted_wrt (\<lambda>x y. createdAt y \<le> createdAt x) books"
    by (rule exI [of _ "find_sort_createdAt_desc st"])
      (simp add: router_get_all_def Let_def find_sort_createdAt_desc_def sorted_desc_sort_key)
next
  assume h: "body_title bA = JString t \<and> body_author bA = JString a \<and> body_isbn bA = JString i \<and>
    body_publicationDate bA = JString d \<and>
    trim t \<noteq> [] \<and> trim a \<noteq> [] \<and> trim i \<noteq> [] \<and> d \<noteq> [] \<and> castDate d = Inr dv \<and>
    body_title bB = JString t' \<and> body_author bB = JString a' \<and> body_isbn bB = JString i' \<and>
    body_publicationDate bB = JString d' \<and>
    trim t' \<noteq> [] \<and> trim a' \<noteq> [] \<and> trim i' \<noteq> [] \<and> d' \<noteq> [] \<and> castDate d' = Inr dv' \<and>
    trim i \<noteq> trim i' \<and> idA \<noteq> idB \<and> tA < tB"
  let ?A = "\<lparr>oid = idA, title = trim t, author = trim a, isbn = trim i,
               publicationDate = dv, createdAt = tA, updatedAt = tA\<rparr>"
  let ?B = "\<lparr>oid = idB, title = trim t', author = trim a', isbn = trim i',
               publicationDate = dv', createdAt = tB, updatedAt = tB\<rparr>"
  have 1: "snd (router_post castDate tA idA bA []) = [?A]"
    using h router_post_created [where castDate = castDate and d = d and dv = dv and b = bA
        and t = t and a = a and i = i and st = "[]" and newId = idA and now = tA]
    by simp
  have ne: "trim i' \<noteq> trim i" "idB \<noteq> idA"
    using h by auto
  have 2: "snd (router_post castDate tB idB bB [?A]) = [?A, ?B]"
    using h ne router_post_created [where castDate = castDate and d = d' and dv = dv' and b = bB
        and t = t' and a = a' and i = i' and st = "[?A]" and newId = idB and now = tB]
    by simp
  have "run castObjectId castDate [Post tA idA bA, Post tB idB bB] [] = [?A, ?B]"
    by (simp add: 1 2)
  moreover have "find_sort_createdAt_desc [?A, ?B] = [?B, ?A]"
    using h by (simp add: find_sort_createdAt_desc_def)
  ultimately show "fst (router_get_all
        (run castObjectId castDate [Post tA idA bA, Post tB idB bB] [])) =
        \<lparr>status = 200, success = True, message = None, count = Some 2,
          data = Docs [?B, ?A]\<rparr>"
    by (simp add: router_get_all_def Let_def)
qed


theorem list_newest_first_witness:
  "trim ''Dune'' \<noteq> [] \<and> castDate_sample ''1984-07-01'' = Inr 457488000000 \<and>
   fst (router_get_all (run castObjectId_hex24 castDate_sample
     [Post 1000 1 \<lparr>body_title = JString ''Dune'', body_author = JString ''Herbert'',
        body_isbn = JString ''978-0-441-17271-9'', body_publicationDate = JString ''1965-08-01''\<rparr>,
      Post 2000 2 \<lparr>body_title = JString ''Neuromancer'', body_author = JString ''Gibson'',
        body_isbn = JString ''978-0-441-56956-4'', body_publicationDate = JString ''1984-07-01''\<rparr>]
     [])) =
   \<lparr>status = 200, success = True, message = None, count = Some 2,
     data = Docs
       [\<lparr>oid = 2, title = ''Neuromancer'', author = ''Gibson'', isbn = ''978-0-441-56956-4'',
          publicationDate = 457488000000, createdAt = 2000, updatedAt = 2000\<rparr>,
        \<lparr>oid = 1, title = ''Dune'', author = ''Herbert'', isbn = ''978-0-441-17271-9'',
          publicationDate = - 139449600000, createdAt = 1000, updatedAt = 1000\<rparr>]\<rparr>"
proof -
  have tr: "trim ''Dune'' = ''Dune''" "trim ''Herbert'' = ''Herbert''"
    "trim ''978-0-441-17271-9'' = ''978-0-441-17271-9''"
    "trim ''Neuromancer'' = ''Neuromancer''" "trim ''Gibson'' = ''Gibson''"
    "trim ''978-0-441-56956-4'' = ''978-0-441-56956-4''"
    by (simp_all add: trim_def isSpace_def)
  have dt: "castDate_sample ''1965-08-01'' = Inr (- 139449600000)"
    "castDate_sample ''1984-07-01'' = Inr 457488000000"
    by (simp_all add: castDate_sample_def)
  show ?thesis
    using tr dt
      list_newest_first [where castObjectId = castObjectId_hex24 and castDate = castDate_sample
        and bA = "\<lparr>body_title = JString ''Dune'', body_author = JString ''Herbert'',
          body_isbn = JString ''978-0-441-17271-9'',
          body_publicationDate = JString ''1965-08-01''\<rparr>"
        and t = "''Dune''" and a = "''Herbert''" and i = "''978-0-441-17271-9''"
        and d = "''1965-08-01''" and dv = "- 139449600000"
        and bB = "\<lparr>body_title = JString ''Neuromancer'', body_author = JString ''Gibson'',
          body_isbn = JString ''978-0-441-56956-4'',
          body_publicationDate = JString ''1984-07-01''\<rparr>"
        and t' = "''Neuromancer''" and a' = "''Gibson''" and i' = "''978-0-441-56956-4''"
        and d' = "''1984-07-01''" and dv' = 457488000000
        and idA = 1 and idB = 2 and tA = 1000 and tB = 2000]
    by simp
qed

section \<open>Deleting a Book (C7)\<close>

text \<open>
  C7, as the spec states it, fails: not every id that matches no Book is answered with
  \<open>Book not found\<close>. The id \<open>abc\<close> is the id of no Book of the collection below, before and
  after the Book with id 1 has been deleted, and a DELETE of it is answered with status 500
  and the generic message both times, because it does not cast to an ObjectId.
\<close>

theorem delete_unmatched_id_not_always_NotFound:
  "router_delete castObjectId_hex24 ''abc''
     [\<lparr>oid = 1, title = ''Dune'', author = ''Herbert'', isbn = ''978-0-441-17271-9'',
        publicationDate = - 139449600000, createdAt = 1000, updatedAt = 1000\<rparr>] =
     (failure 500 ''Failed to delete book. Please try again later.'',
      [\<lparr>oid = 1, title = ''Dune'', author = ''Herbert'', isbn = ''978-0-441-17271-9'',
        publicationDate = - 139449600000, createdAt = 1000, updatedAt = 1000\<rparr>]) \<and>
   snd (router_delete castObjectId_hex24 ''000000000000000000000001''
     [\<lparr>oid = 1, title = ''Dune'', author = ''Herbert'', isbn = ''978-0-441-17271-9'',
        publicationDate = - 139449600000, createdAt = 1000, updatedAt = 1000\<rparr>]) = [] \<and>
   router_delete castObjectId_hex24 ''abc'' [] =
     (failure 500 ''Failed to delete book. Please try again later.'', []) \<and>
   failure 500 ''Failed to delete book. Please try again later.'' \<noteq>
     failure 404 ''Book not found''"
  by (simp add: router_delete_def findById_def findByIdAndDelete_def castObjectId_hex24_def
      hexDigit_def failure_def)

text \<open>
  C7, amended. Let the collection be well-formed. A DELETE with the id of a Book bk of the
  collection is answered with status 200, the message \<open>Book deleted successfully\<close> and
  no data; the collection it leaves holds the other Books and not bk; a GET of the same id
  on it is answered with status 404 and \<open>Book not found\<close>, and so is a second DELETE of the
  same id, which leaves the collection as it is. A DELETE with a well-formed id (one that
  casts to an ObjectId) that no Book has is answered with 404 as well and leaves the
  collection as it was.
\<close>

theorem delete_then_not_found:
  assumes "store_ok st"
  shows "(bk \<in> set st \<and> castObjectId i = Some (oid bk) \<longrightarrow>
            (\<exists>st'. router_delete castObjectId i st =
                    (\<lparr>status = 200, success = True,
                      message = Some ''Book deleted successfully'', count = None,
                      data = NoData\<rparr>, st') \<and>
                  set st' = set st - {bk} \<and>
                  router_get_id castObjectId i st' = (failure 404 ''Book not found'', st') \<and>
                  router_delete castObjectId i st' = (failure 404 ''Book not found'', st'))) \<and>
         (castObjectId j = Some k \<and> k \<notin> oid ` set st \<longrightarrow>
            router_delete castObjectId j st = (failure 404 ''Book not found'', st))"
proof (intro conjI impI)
  have d: "distinct (map oid st)"
    using assms by (simp add: store_ok_def)
  {
    assume h: "bk \<in> set st \<and> castObjectId i = Some (oid bk)"
    have fnd: "find (\<lambda>b. oid b = oid bk) st = Some bk"
      using d h by (simp add: find_oid_distinct)
    have del: "router_delete castObjectId i st =
                    (\<lparr>status = 200, success = True,
                      message = Some ''Book deleted successfully'', count = None,
                      data = NoData\<rparr>, deleteOne (oid bk) st)"
      using h fnd by (simp add: router_delete_def findById_def findByIdAndDelete_def)
    have "set (deleteOne (oid bk) st) = {c \<in> set st. oid c \<noteq> oid bk}"
      using d by (rule set_deleteOne_distinct)
    also have "\<dots> = set st - {bk}"
      using h oid_inj_distinct [OF d] by auto
    finally have rest: "set (deleteOne (oid bk) st) = set st - {bk}" .
    have "find (\<lambda>b. oid b = oid bk) (deleteOne (oid bk) st) = None"
      using oid_deleteOne [OF d, of "oid bk"] by (auto simp: find_None_iff_set image_iff)
    then have gone:
      "router_get_id castObjectId i (deleteOne (oid bk) st) =
         (failure 404 ''Book not found'', deleteOne (oid bk) st)"
      "router_delete castObjectId i (deleteOne (oid bk) st) =
         (failure 404 ''Book not found'', deleteOne (oid bk) st)"
      using h by (simp_all add: router_get_id_def router_delete_def findById_def)
    from del rest gone
    show "\<exists>st'. router_delete castObjectId i st =
                    (\<lparr>status = 200, success = True,
                      message = Some ''Book deleted successfully'', count = None,
                      data = NoData\<rparr>, st') \<and>
                  set st' = set st - {bk} \<and>
                  router_get_id castObjectId i st' = (failure 404 ''Book not found'', st') \<and>
                  router_delete castObjectId i st' = (failure 404 ''Book not found'', st')"
      by blast
  }
  {
    assume "castObjectId j = Some k \<and> k \<notin> oid ` set st"
    moreover from this have "find (\<lambda>b. oid b = k) st = None"
      by (force simp: find_None_iff_set)
    ultimately show "router_delete castObjectId j st = (failure 404 ''Book not found'', st)"
      by (simp add: router_delete_def findById_def)
  }
qed

theorem delete_then_not_found_witness:
  "store_ok
     [\<lparr>oid = 1, title = ''Dune'', author = ''Herbert'', isbn = ''978-0-441-17271-9'',
        publicationDate = - 139449600000, createdAt = 1000, updatedAt = 1000\<rparr>,
      \<lparr>oid = 2, title = ''Neuromancer'', author = ''Gibson'', isbn = ''978-0-441-56956-4'',
        publicationDate = 457488000000, createdAt = 2000, updatedAt = 2000\<rparr>] \<and>
   castObjectId_hex24 ''000000000000000000000001'' = Some 1 \<and>
   castObjectId_hex24 ''000000000000000000000007'' = Some 7 \<and>
   (\<exists>st'. router_delete castObjectId_hex24 ''000000000000000000000001''
       [\<lparr>oid = 1, title = ''Dune'', author = ''Herbert'', isbn = ''978-0-441-17271-9'',
          publicationDate = - 139449600000, createdAt = 1000, updatedAt = 1000\<rparr>,
        \<lparr>oid = 2, title = ''Neuromancer'', author = ''Gibson'', isbn = ''978-0-441-56956-4'',
          publicationDate = 457488000000, createdAt = 2000, updatedAt = 2000\<rparr>] =
       (\<lparr>status = 200, success = True, message = Some ''Book deleted successfully'',
         count = None, data = NoData\<rparr>, st') \<and>
      set st' =
        {\<lparr>oid = 2, title = ''Neuromancer'', author = ''Gibson'', isbn = ''978-0-441-56956-4'',
          publicationDate = 457488000000, createdAt = 2000, updatedAt = 2000\<rparr>} \<and>
      router_get_id castObjectId_hex24 ''000000000000000000000001'' st' =
        (failure 404 ''Book not found'', st') \<and>
      router_delete castObjectId_hex24 ''000000000000000000000001'' st' =
        (failure 404 ''Book not found'', st')) \<and>
   router_delete castObjectId_hex24 ''000000000000000000000007''
     [\<lparr>oid = 1, title = ''Dune'', author = ''Herbert'', isbn = ''978-0-441-17271-9'',
        publicationDate = - 139449600000, createdAt = 1000, updatedAt = 1000\<rparr>,
      \<lparr>oid = 2, title = ''Neuromancer'', author = ''Gibson'', isbn = ''978-0-441-56956-4'',
        publicationDate = 457488000000, createdAt = 2000, updatedAt = 2000\<rparr>] =
     (failure 404 ''Book not found'',
      [\<lparr>oid = 1, title = ''Dune'', author = ''Herbert'', isbn = ''978-0-441-17271-9'',
        publicationDate = - 139449600000, createdAt = 1000, updatedAt = 1000\<rparr>,
      \<lparr>oid = 2, title = ''Neuromancer'', author = ''Gibson'', isbn = ''978-0-441-56956-4'',
        publicationDate = 457488000000, createdAt = 2000, updatedAt = 2000\<rparr>])"
proof -
  let ?dune = "\<lparr>oid = 1, title = ''Dune'', author = ''Herbert'', isbn = ''978-0-441-17271-9'',
        publicationDate = - 139449600000, createdAt = 1000, updatedAt = 1000\<rparr>"
  let ?neuro = "\<lparr>oid = 2, title = ''Neuromancer'', author = ''Gibson'',
        isbn = ''978-0-441-56956-4'',
        publicationDate = 457488000000, createdAt = 2000, updatedAt = 2000\<rparr>"
  have h1: "store_ok [?dune, ?neuro]"
    by (simp add: store_ok_def stored_ok_def trim_def isSpace_def)
  have h2: "castObjectId_hex24 ''000000000000000000000001'' = Some 1"
    "castObjectId_hex24 ''000000000000000000000007'' = Some 7"
    by (simp_all add: castObjectId_hex24_def hexDigit_def)
  have s: "set [?dune, ?neuro] - {?dune} = {?neuro}"
    by auto
  show ?thesis
    using h1 h2 s
      delete_then_not_found [OF h1, where bk = ?dune and castObjectId = castObjectId_hex24
        and i = "''000000000000000000000001''" and j = "''000000000000000000000007''"
        and k = 7]
    by simp
qed

section \<open>Trimmed text (C10)\<close>

lemma Book_create_invalid:
  "validate (setString t) (setString a) (setString i) (setDate castDate d) \<noteq> [] \<Longrightarrow>
   Book_create castDate now newId t a i d st =
     Inl (ValidationError
       (validate (setString t) (setString a) (setString i) (setDate castDate d)))"
  by (auto simp: Book_create_def Let_def split: option.splits sum.splits)

lemma assign_and_save_invalid:
  "validate (setString t) (setString a) (setString i) (setDate castDate d) \<noteq> [] \<Longrightarrow>
   assign_and_save castDate now doc t a i d st =
     Inl (ValidationError
       (validate (setString t) (setString a) (setString i) (setDate castDate d)))"
  by (auto simp: assign_and_save_def Let_def split: option.splits sum.splits)


lemma validate_blank:
  "trim ws = [] \<Longrightarrow>
   (t = JString ws \<longrightarrow>
      ''Book title is required'' \<in> set (validate (setString t) a' i' d')) \<and>
   (a = JString ws \<longrightarrow>
      ''Author name is required'' \<in> set (validate t' (setString a) i' d')) \<and>
   (i = JString ws \<longrightarrow>
      ''ISBN number is required'' \<in> set (validate t' a' (setString i) d'))"
  by (simp add: validate_def)

text \<open>
  C10. The store trims on create and on update. A POST whose title, author and isbn are
  strings that are not empty once trimmed (with a date that casts, an isbn that is new once
  trimmed and a new id) is answered with 201 and stores a Book with the trimmed strings as
  title, author and isbn; a PUT with such a body on a Book of a well-formed collection
  (its isbn that of the Book, or new once trimmed) is answered with 200 and stores, under
  the id of that Book, a Book with the trimmed strings. And whenever a POST or PUT with
  strings as title, author and isbn succeeds at all, the Book it answers with and stores
  has them trimmed. A string of white space only, submitted as title, author or isbn, is
  not falsy, so it passes the presence check of the routes, but \<open>Book.create\<close> and
  \<open>book.save()\<close> reject the document with a ValidationError that carries the
  \<open>required\<close> message of that field; neither route succeeds then, and the collection
  stays as it was.
\<close>

theorem stored_text_is_trimmed:
  "(body_title b = JString t \<and> body_author b = JString a \<and> body_isbn b = JString i \<and>
    body_publicationDate b = JString d \<and>
    trim t \<noteq> [] \<and> trim a \<noteq> [] \<and> trim i \<noteq> [] \<and> d \<noteq> [] \<and> castDate d = Inr dv \<and>
    trim i \<notin> isbn ` set st \<and> newId \<notin> oid ` set st \<longrightarrow>
      (\<exists>doc.
         router_post castDate now newId b st =
           (\<lparr>status = 201, success = True, message = Some ''Book added successfully'',
             count = None, data = Doc doc\<rparr>, st @ [doc]) \<and>
         title doc = trim t \<and> author doc = trim a \<and> isbn doc = trim i)) \<and>
   (body_title b = JString t \<and> body_author b = JString a \<and> body_isbn b = JString i \<and>
    success (fst (router_post castDate now newId b st)) \<longrightarrow>
      (\<exists>doc.
         data (fst (router_post castDate now newId b st)) = Doc doc \<and>
         snd (router_post castDate now newId b st) = st @ [doc] \<and>
         title doc = trim t \<and> author doc = trim a \<and> isbn doc = trim i)) \<and>
   (store_ok st \<and> bk \<in> set st \<and> castObjectId idtext = Some (oid bk) \<and>
    body_title b = JString t \<and> body_author b = JString a \<and> body_isbn b = JString i \<and>
    body_publicationDate b = JString d \<and>
    trim t \<noteq> [] \<and> trim a \<noteq> [] \<and> trim i \<noteq> [] \<and> d \<noteq> [] \<and> castDate d = Inr dv \<and>
    (i = isbn bk \<or> trim i \<notin> isbn ` set st) \<longrightarrow>
      (\<exists>doc.
         fst (router_put castObjectId castDate now idtext b st) =
           \<lparr>status = 200, success = True, message = Some ''Book updated successfully'',
             count = None, data = Doc doc\<rparr> \<and>
         doc \<in> set (snd (router_put castObjectId castDate now idtext b st)) \<and>
         oid doc = oid bk \<and>
         title doc = trim t \<and> author doc = trim a \<and> isbn doc = trim i)) \<and>
   (body_title b = JString t \<and> body_author b = JString a \<and> body_isbn b = JString i \<and>
    success (fst (router_put castObjectId castDate now idtext b st)) \<longrightarrow>
      (\<exists>doc.
         data (fst (router_put castObjectId castDate now idtext b st)) = Doc doc \<and>
         doc \<in> set (snd (router_put castObjectId castDate now idtext b st)) \<and>
         title doc = trim t \<and> author doc = trim a \<and> isbn doc = trim i)) \<and>
   (ws \<noteq> [] \<and> trim ws = [] \<and>
    (body_title b = JString ws \<or> body_author b = JString ws \<or> body_isbn b = JString ws) \<longrightarrow>
      \<not> falsy (JString ws) \<and>
      (\<exists>messages.
         Book_create castDate now newId (body_title b) (body_author b) (body_isbn b)
           (body_publicationDate b) st = Inl (ValidationError messages) \<and>
         assign_and_save castDate now old (body_title b) (body_author b) (body_isbn b)
           (body_publicationDate b) st = Inl (ValidationError messages) \<and>
         (body_title b = JString ws \<longrightarrow> ''Book title is required'' \<in> set messages) \<and>
         (body_author b = JString ws \<longrightarrow> ''Author name is required'' \<in> set messages) \<and>
         (body_isbn b = JString ws \<longrightarrow> ''ISBN number is required'' \<in> set messages)) \<and>
      \<not> success (fst (router_post castDate now newId b st)) \<and>
      snd (router_post castDate now newId b st) = st \<and>
      \<not> success (fst (router_put castObjectId castDate now idtext b st)) \<and>
      snd (router_put castObjectId castDate now idtext b st) = st)"
proof (intro conjI impI)
  {
    assume h: "body_title b = JString t \<and> body_author b = JString a \<and> body_isbn b = JString i \<and>
      body_publicationDate b = JString d \<and>
      trim t \<noteq> [] \<and> trim a \<noteq> [] \<and> trim i \<noteq> [] \<and> d \<noteq> [] \<and> castDate d = Inr dv \<and>
      trim i \<notin> isbn ` set st \<and> newId \<notin> oid ` set st"
    have "router_post castDate now newId b st =
       (\<lparr>status = 201, success = True, message = Some ''Book added successfully'', count = None,
         data = Doc \<lparr>oid = newId, title = trim t, author = trim a, isbn = trim i,
             publicationDate = dv, createdAt = now, updatedAt = now\<rparr>\<rparr>,
        st @ [\<lparr>oid = newId, title = trim t, author = trim a, isbn = trim i,
             publicationDate = dv, createdAt = now, updatedAt = now\<rparr>])"
      using h by (intro router_post_created [where castDate = castDate and d = d and dv = dv])
        simp_all
    then show "\<exists>doc.
         router_post castDate now newId b st =
           (\<lparr>status = 201, success = True, message = Some ''Book added successfully'',
             count = None, data = Doc doc\<rparr>, st @ [doc]) \<and>
         title doc = trim t \<and> author doc = trim a \<and> isbn doc = trim i"
      by simp
  }
  {
    assume h: "body_title b = JString t \<and> body_author b = JString a \<and> body_isbn b = JString i \<and>
      success (fst (router_post castDate now newId b st))"
    obtain r st' where eq: "router_post castDate now newId b st = (r, st')"
      by (cases "router_post castDate now newId b st")
    with h have "success r" by simp
    with router_post_cases [OF eq] h eq
    show "\<exists>doc.
         data (fst (router_post castDate now newId b st)) = Doc doc \<and>
         snd (router_post castDate now newId b st) = st @ [doc] \<and>
         title doc = trim t \<and> author doc = trim a \<and> isbn doc = trim i"
      by auto
  }
  {
    assume h: "store_ok st \<and> bk \<in> set st \<and> castObjectId idtext = Some (oid bk) \<and>
      body_title b = JString t \<and> body_author b = JString a \<and> body_isbn b = JString i \<and>
      body_publicationDate b = JString d \<and>
      trim t \<noteq> [] \<and> trim a \<noteq> [] \<and> trim i \<noteq> [] \<and> d \<noteq> [] \<and> castDate d = Inr dv \<and>
      (i = isbn bk \<or> trim i \<notin> isbn ` set st)"
    have fnd: "find (\<lambda>b. oid b = oid bk) st = Some bk"
      using h by (simp add: find_oid_distinct store_ok_def)
    have "stored_ok bk"
      using h by (simp add: store_ok_def list_all_iff)
    then have "trim (isbn bk) = isbn bk"
      by (simp add: stored_ok_def)
    with h have isbn_ok: "(i = isbn bk \<and> trim i = isbn bk) \<or> trim i \<notin> isbn ` set st"
      by auto
    let ?new = "bk\<lparr>title := trim t, author := trim a, isbn := trim i, publicationDate := dv\<rparr>"
    have put: "router_put castObjectId castDate now idtext b st =
     (if ?new = bk
      then (\<lparr>status = 200, success = True, message = Some ''Book updated successfully'',
              count = None, data = Doc bk\<rparr>, st)
      else (\<lparr>status = 200, success = True, message = Some ''Book updated successfully'',
              count = None, data = Doc (?new\<lparr>updatedAt := now\<rparr>)\<rparr>,
            replaceOne (oid bk) (?new\<lparr>updatedAt := now\<rparr>) st))"
      using h fnd isbn_ok
      by (intro router_put_updated [where castDate = castDate and d = d and dv = dv]) simp_all
    show "\<exists>doc.
         fst (router_put castObjectId castDate now idtext b st) =
           \<lparr>status = 200, success = True, message = Some ''Book updated successfully'',
             count = None, data = Doc doc\<rparr> \<and>
         doc \<in> set (snd (router_put castObjectId castDate now idtext b st)) \<and>
         oid doc = oid bk \<and>
         title doc = trim t \<and> author doc = trim a \<and> isbn doc = trim i"
    proof (cases "?new = bk")
      case True
      then have "trim t = title bk" "trim a = author bk" "trim i = isbn bk"
        by (simp_all add: book_unchanged_iff)
      with put True h show ?thesis
        by (intro exI [of _ bk]) simp
    next
      case False
      with put replaceOne_mem [OF fnd, of "?new\<lparr>updatedAt := now\<rparr>"] show ?thesis
        by (intro exI [of _ "?new\<lparr>updatedAt := now\<rparr>"]) simp
    qed
  }
  {
    assume h: "body_title b = JString t \<and> body_author b = JString a \<and> body_isbn b = JString i \<and>
      success (fst (router_put castObjectId castDate now idtext b st))"
    obtain r2 st2 where eq: "router_put castObjectId castDate now idtext b st = (r2, st2)"
      by (cases "router_put castObjectId castDate now idtext b st")
    with h have "success r2" by simp
    with router_put_cases [OF eq]
    obtain k bk0 t0 a0 i0 dv0 bk' where x:
      "find (\<lambda>b. oid b = k) st = Some bk0"
      "body_title b = JString t0" "body_author b = JString a0" "body_isbn b = JString i0"
      "bk' = bk0\<lparr>title := trim t0, author := trim a0, isbn := trim i0,
                  publicationDate := dv0,
                  updatedAt := (if bk0\<lparr>title := trim t0, author := trim a0, isbn := trim i0,
                                        publicationDate := dv0\<rparr> = bk0
                                then updatedAt bk0 else now)\<rparr>"
      "r2 = \<lparr>status = 200, success = True, message = Some ''Book updated successfully'',
                  count = None, data = Doc bk'\<rparr>"
      "st2 = (if bk0\<lparr>title := trim t0, author := trim a0, isbn := trim i0,
                      publicationDate := dv0\<rparr> = bk0
              then st else replaceOne k bk' st)"
      by auto
    have same: "t0 = t" "a0 = a" "i0 = i"
      using h x(2-4) by simp_all
    have "bk' \<in> set st2"
    proof (cases "bk0\<lparr>title := trim t0, author := trim a0, isbn := trim i0,
                      publicationDate := dv0\<rparr> = bk0")
      case True
      then have "bk' = bk0"
        using x(5) by (simp add: book_unchanged_iff)
      with True x(7) find_Some_set [OF x(1)] show ?thesis by simp
    next
      case False
      with x(7) replaceOne_mem [OF x(1)] show ?thesis by simp
    qed
    with x(5,6) same eq show "\<exists>doc.
         data (fst (router_put castObjectId castDate now idtext b st)) = Doc doc \<and>
         doc \<in> set (snd (router_put castObjectId castDate now idtext b st)) \<and>
         title doc = trim t \<and> author doc = trim a \<and> isbn doc = trim i"
      by simp
  }
  assume h: "ws \<noteq> [] \<and> trim ws = [] \<and>
    (body_title b = JString ws \<or> body_author b = JString ws \<or> body_isbn b = JString ws)"
  show "\<not> falsy (JString ws)"
    using h by simp
  let ?v = "validate (setString (body_title b)) (setString (body_author b))
              (setString (body_isbn b)) (setDate castDate (body_publicationDate b))"
  have blank:
    "body_title b = JString ws \<longrightarrow> ''Book title is required'' \<in> set ?v"
    "body_author b = JString ws \<longrightarrow> ''Author name is required'' \<in> set ?v"
    "body_isbn b = JString ws \<longrightarrow> ''ISBN number is required'' \<in> set ?v"
    using h validate_blank [of ws] by blast+
  with h have ne: "?v \<noteq> []"
    by auto
  show "\<exists>messages.
         Book_create castDate now newId (body_title b) (body_author b) (body_isbn b)
           (body_publicationDate b) st = Inl (ValidationError messages) \<and>
         assign_and_save castDate now old (body_title b) (body_author b) (body_isbn b)
           (body_publicationDate b) st = Inl (ValidationError messages) \<and>
         (body_title b = JString ws \<longrightarrow> ''Book title is required'' \<in> set messages) \<and>
         (body_author b = JString ws \<longrightarrow> ''Author name is required'' \<in> set messages) \<and>
         (body_isbn b = JString ws \<longrightarrow> ''ISBN number is required'' \<in> set messages)"
    using Book_create_invalid [OF ne] assign_and_save_invalid [OF ne] blank
    by (intro exI [of _ ?v]) simp
  have notrim: "\<not> (body_title b = JString t \<and> body_author b = JString a \<and>
      body_isbn b = JString i \<and> trim t \<noteq> [] \<and> trim a \<noteq> [] \<and> trim i \<noteq> [])" for t a i
    using h by auto
  obtain r1 s1 where p: "router_post castDate now newId b st = (r1, s1)"
    by (cases "router_post castDate now newId b st")
  from router_post_cases [OF p] notrim have "\<not> success r1 \<and> s1 = st"
    by blast
  with p show "\<not> success (fst (router_post castDate now newId b st))"
    "snd (router_post castDate now newId b st) = st"
    by simp_all
  obtain r3 s3 where q: "router_put castObjectId castDate now idtext b st = (r3, s3)"
    by (cases "router_put castObjectId castDate now idtext b st")
  from router_put_cases [OF q] notrim have "\<not> success r3 \<and> s3 = st"
    by blast
  with q show "\<not> success (fst (router_put castObjectId castDate now idtext b st))"
    "snd (router_put castObjectId castDate now idtext b st) = st"
    by simp_all
qed


theorem stored_text_is_trimmed_witness:
  "store_ok
     [\<lparr>oid = 1, title = ''Dune'', author = ''Herbert'', isbn = ''978-0-441-17271-9'',
        publicationDate = - 139449600000, createdAt = 1000, updatedAt = 1000\<rparr>,
      \<lparr>oid = 2, title = ''Neuromancer'', author = ''Gibson'', isbn = ''978-0-441-56956-4'',
        publicationDate = 457488000000, createdAt = 2000, updatedAt = 2000\<rparr>] \<and>
   castObjectId_hex24 ''000000000000000000000001'' = Some 1 \<and>
   trim '' Dune Messiah '' = ''Dune Messiah'' \<and>
   (\<exists>doc.
      router_post castDate_sample 1000 1
        \<lparr>body_title = JString '' Dune '', body_author = JString ''Herbert  '',
          body_isbn = JString ''  978-0-441-17271-9'',
          body_publicationDate = JString ''1965-08-01''\<rparr> [] =
        (\<lparr>status = 201, success = True, message = Some ''Book added successfully'',
          count = None, data = Doc doc\<rparr>, [doc]) \<and>
      title doc = ''Dune'' \<and> author doc = ''Herbert'' \<and> isbn doc = ''978-0-441-17271-9'') \<and>
   (\<exists>doc.
      fst (router_put castObjectId_hex24 castDate_sample 3000 ''000000000000000000000001''
        \<lparr>body_title = JString '' Dune Messiah '', body_author = JString ''Frank Herbert '',
          body_isbn = JString '' 978-0-441-17269-6'',
          body_publicationDate = JString ''1965-08-01''\<rparr>
        [\<lparr>oid = 1, title = ''Dune'', author = ''Herbert'', isbn = ''978-0-441-17271-9'',
           publicationDate = - 139449600000, createdAt = 1000, updatedAt = 1000\<rparr>,
         \<lparr>oid = 2, title = ''Neuromancer'', author = ''Gibson'',
           isbn = ''978-0-441-56956-4'',
           publicationDate = 457488000000, createdAt = 2000, updatedAt = 2000\<rparr>]) =
        \<lparr>status = 200, success = True, message = Some ''Book updated successfully'',
          count = None, data = Doc doc\<rparr> \<and>
      doc \<in> set (snd (router_put castObjectId_hex24 castDate_sample 3000
        ''000000000000000000000001''
        \<lparr>body_title = JString '' Dune Messiah '', body_author = JString ''Frank Herbert '',
          body_isbn = JString '' 978-0-441-17269-6'',
          body_publicationDate = JString ''1965-08-01''\<rparr>
        [\<lparr>oid = 1, title = ''Dune'', author = ''Herbert'', isbn = ''978-0-441-17271-9'',
           publicationDate = - 139449600000, createdAt = 1000, updatedAt = 1000\<rparr>,
         \<lparr>oid = 2, title = ''Neuromancer'', author = ''Gibson'',
           isbn = ''978-0-441-56956-4'',
           publicationDate = 457488000000, createdAt = 2000, updatedAt = 2000\<rparr>])) \<and>
      oid doc = 1 \<and>
      title doc = ''Dune Messiah'' \<and> author doc = ''Frank Herbert'' \<and>
      isbn doc = ''978-0-441-17269-6'') \<and>
   ''  '' \<noteq> [] \<and> trim ''  '' = [] \<and> \<not> falsy (JString ''  '') \<and>
   (\<exists>messages.
      Book_create castDate_sample 2000 2 (JString ''Dune'') (JString ''  '')
        (JString ''978-0-441-17271-9'') (JString ''1965-08-01'') [] =
        Inl (ValidationError messages) \<and>
      ''Author name is required'' \<in> set messages) \<and>
   \<not> success (fst (router_post castDate_sample 2000 2
     \<lparr>body_title = JString ''Dune'', body_author = JString ''  '',
       body_isbn = JString ''978-0-441-17271-9'', body_publicationDate = JString ''1965-08-01''\<rparr>
     [])) \<and>
   snd (router_post castDate_sample 2000 2
     \<lparr>body_title = JString ''Dune'', body_author = JString ''  '',
       body_isbn = JString ''978-0-441-17271-9'', body_publicationDate = JString ''1965-08-01''\<rparr>
     []) = []"
proof -
  let ?dune = "\<lparr>oid = 1, title = ''Dune'', author = ''Herbert'', isbn = ''978-0-441-17271-9'',
        publicationDate = - 139449600000, createdAt = 1000, updatedAt = 1000\<rparr>"
  let ?neuro = "\<lparr>oid = 2, title = ''Neuromancer'', author = ''Gibson'',
        isbn = ''978-0-441-56956-4'',
        publicationDate = 457488000000, createdAt = 2000, updatedAt = 2000\<rparr>"
  let ?post = "\<lparr>body_title = JString '' Dune '', body_author = JString ''Herbert  '',
          body_isbn = JString ''  978-0-441-17271-9'',
          body_publicationDate = JString ''1965-08-01''\<rparr>"
  let ?put = "\<lparr>body_title = JString '' Dune Messiah '',
          body_author = JString ''Frank Herbert '',
          body_isbn = JString '' 978-0-441-17269-6'',
          body_publicationDate = JString ''1965-08-01''\<rparr>"
  let ?blank = "\<lparr>body_title = JString ''Dune'', body_author = JString ''  '',
       body_isbn = JString ''978-0-441-17271-9'',
       body_publicationDate = JString ''1965-08-01''\<rparr>"
  have ok: "store_ok [?dune, ?neuro]"
    by (simp add: store_ok_def stored_ok_def trim_def isSpace_def)
  have idc: "castObjectId_hex24 ''000000000000000000000001'' = Some 1"
    by (simp add: castObjectId_hex24_def hexDigit_def)
  have tr: "trim '' Dune '' = ''Dune''" "trim ''Herbert  '' = ''Herbert''"
    "trim ''  978-0-441-17271-9'' = ''978-0-441-17271-9''"
    "trim '' Dune Messiah '' = ''Dune Messiah''" "trim ''Frank Herbert '' = ''Frank Herbert''"
    "trim '' 978-0-441-17269-6'' = ''978-0-441-17269-6''"
    by (simp_all add: trim_def isSpace_def)
  have dt: "castDate_sample ''1965-08-01'' = Inr (- 139449600000)"
    by (simp add: castDate_sample_def)
  have blank: "''  '' \<noteq> []" "trim ''  '' = []"
    by (simp_all add: trim_def isSpace_def)
  have hpost: "body_title ?post = JString '' Dune '' \<and>
    body_author ?post = JString ''Herbert  '' \<and>
    body_isbn ?post = JString ''  978-0-441-17271-9'' \<and>
    body_publicationDate ?post = JString ''1965-08-01'' \<and>
    trim '' Dune '' \<noteq> [] \<and> trim ''Herbert  '' \<noteq> [] \<and>
    trim ''  978-0-441-17271-9'' \<noteq> [] \<and> ''1965-08-01'' \<noteq> [] \<and>
    castDate_sample ''1965-08-01'' = Inr (- 139449600000) \<and>
    trim ''  978-0-441-17271-9'' \<notin> isbn ` set [] \<and> (1 :: nat) \<notin> oid ` set []"
    by (simp add: tr dt)
  have hput: "store_ok [?dune, ?neuro] \<and> ?dune \<in> set [?dune, ?neuro] \<and>
    castObjectId_hex24 ''000000000000000000000001'' = Some (oid ?dune) \<and>
    body_title ?put = JString '' Dune Messiah '' \<and>
    body_author ?put = JString ''Frank Herbert '' \<and>
    body_isbn ?put = JString '' 978-0-441-17269-6'' \<and>
    body_publicationDate ?put = JString ''1965-08-01'' \<and>
    trim '' Dune Messiah '' \<noteq> [] \<and> trim ''Frank Herbert '' \<noteq> [] \<and>
    trim '' 978-0-441-17269-6'' \<noteq> [] \<and> ''1965-08-01'' \<noteq> [] \<and>
    castDate_sample ''1965-08-01'' = Inr (- 139449600000) \<and>
    ('' 978-0-441-17269-6'' = isbn ?dune \<or>
     trim '' 978-0-441-17269-6'' \<notin> isbn ` set [?dune, ?neuro])"
    using ok by (simp add: tr dt idc)
  have hblank: "''  '' \<noteq> [] \<and> trim ''  '' = [] \<and>
    (body_title ?blank = JString ''  '' \<or> body_author ?blank = JString ''  '' \<or>
     body_isbn ?blank = JString ''  '')"
    using blank by simp
  note c1 = stored_text_is_trimmed [where castDate = castDate_sample and now = 1000
      and newId = 1 and b = ?post and st = "[]" and t = "'' Dune ''" and a = "''Herbert  ''"
      and i = "''  978-0-441-17271-9''" and d = "''1965-08-01''" and dv = "- 139449600000",
      THEN conjunct1, THEN mp, OF hpost]
  note c3 = stored_text_is_trimmed [where castObjectId = castObjectId_hex24
      and castDate = castDate_sample and now = 3000 and idtext = "''000000000000000000000001''"
      and b = ?put and st = "[?dune, ?neuro]" and bk = ?dune and t = "'' Dune Messiah ''"
      and a = "''Frank Herbert ''" and i = "'' 978-0-441-17269-6''" and d = "''1965-08-01''"
      and dv = "- 139449600000",
      THEN conjunct2, THEN conjunct2, THEN conjunct1, THEN mp, OF hput]
  note c5 = stored_text_is_trimmed [where castDate = castDate_sample and now = 2000
      and newId = 2 and b = ?blank and st = "[]" and ws = "''  ''"
      and castObjectId = castObjectId_hex24 and idtext = "''000000000000000000000001''"
      and old = ?dune,
      THEN conjunct2, THEN conjunct2, THEN conjunct2, THEN conjunct2, THEN mp, OF hblank]
  from c1 have p1: "\<exists>doc.
      router_post castDate_sample 1000 1 ?post [] =
        (\<lparr>status = 201, success = True, message = Some ''Book added successfully'',
          count = None, data = Doc doc\<rparr>, [doc]) \<and>
      title doc = ''Dune'' \<and> author doc = ''Herbert'' \<and> isbn doc = ''978-0-441-17271-9''"
    by (simp add: tr)
  from c3 have p3: "\<exists>doc.
      fst (router_put castObjectId_hex24 castDate_sample 3000 ''000000000000000000000001''
        ?put [?dune, ?neuro]) =
        \<lparr>status = 200, success = True, message = Some ''Book updated successfully'',
          count = None, data = Doc doc\<rparr> \<and>
      doc \<in> set (snd (router_put castObjectId_hex24 castDate_sample 3000
        ''000000000000000000000001'' ?put [?dune, ?neuro])) \<and>
      oid doc = 1 \<and>
      title doc = ''Dune Messiah'' \<and> author doc = ''Frank Herbert'' \<and>
      isbn doc = ''978-0-441-17269-6''"
    by (simp add: tr)
  from c5 have m: "\<exists>messages.
      Book_create castDate_sample 2000 2 (JString ''Dune'') (JString ''  '')
        (JString ''978-0-441-17271-9'') (JString ''1965-08-01'') [] =
        Inl (ValidationError messages) \<and>
      ''Author name is required'' \<in> set messages"
    by auto
  from c5 have n: "\<not> falsy (JString ''  '')"
    "\<not> success (fst (router_post castDate_sample 2000 2 ?blank []))"
    "snd (router_post castDate_sample 2000 2 ?blank []) = []"
    by blast+
  from ok idc tr(4) p1 p3 blank m n show ?thesis
    by (intro conjI)
qed

end
